theory Spec2Isabelle
  imports Complex_Main "HOL-Library.Word" "HOL-Library.Monad_Syntax"
begin

section \<open>Audio buses and bus connections\<close>

text \<open>
  Sources: \<^verbatim>\<open>src/engine/src/Mescaline/Audio/Synth.hpp\<close> (connections, read and write)
  and \<^verbatim>\<open>src/engine/src/Methcla/Audio/Engine.cpp\<close> (the environment and its buses).

  Modelled from the spec: the declaration of \<^verbatim>\<open>Epoch\<close> is not among the sources. The
  specification calls it a 64-bit counter, so it is a 64-bit word here. The code compares
  epochs with \<^verbatim>\<open>==\<close> and \<^verbatim>\<open>!=\<close> only and changes them with \<^verbatim>\<open>++\<close> and
  \<^verbatim>\<open>- 1\<close>, all of which are the same for a signed and an unsigned counter. Where an
  epoch is read as a number it is read as a signed one (\<open>sint\<close>, the reading of
  \<^verbatim>\<open>int64_t\<close>): the specification has the epoch of a bus equal to the epoch of the
  environment or strictly less, and the constructor gives every bus the epoch
  \<^verbatim>\<open>epoch() - 1\<close> of a new environment, whose epoch is 0.

  Samples (\<^verbatim>\<open>sample_t\<close>, a 32-bit float) are values of any type with an addition and
  a zero; nothing below uses a law of addition, so the theorems hold for an addition
  that is not associative.
\<close>

type_synonym Epoch = "64 word"

type_synonym AudioBusId = nat

record 'a AudioBus =
  epoch :: Epoch
  data :: "'a list"

datatype InputConnectionType = kIn | kInFeedback

datatype OutputConnectionType = kOut | kReplaceOut

text \<open>
  Modelled from the spec: the class \<^verbatim>\<open>ResourceId\<close> is missing. A connection tests
  \<^verbatim>\<open>if (busId())\<close> before it touches a bus, and the specification says that a connection
  with \<^verbatim>\<open>busId=None\<close> reads silence and discards output: the bus id of a connection is
  an optional bus id, \<open>None\<close> being the id that tests false.
\<close>

type_synonym ResourceId = "AudioBusId option"

record 't Connection =
  m_index :: nat
  m_busId :: ResourceId
  m_type :: 't

type_synonym AudioInputConnection = "InputConnectionType Connection"

type_synonym AudioOutputConnection = "OutputConnectionType Connection"

text \<open>The constructors: a fresh connection is unmapped, an input is \<open>kIn\<close>, an output \<open>kOut\<close>.\<close>

definition AudioInputConnection :: "nat \<Rightarrow> AudioInputConnection" where
  "AudioInputConnection index = \<lparr>m_index = index, m_busId = None, m_type = kIn\<rparr>"

definition AudioOutputConnection :: "nat \<Rightarrow> AudioOutputConnection" where
  "AudioOutputConnection index = \<lparr>m_index = index, m_busId = None, m_type = kOut\<rparr>"

text \<open>\<^verbatim>\<open>Connection::connect\<close>: returns whether the bus changed, and the connection.\<close>

definition Connection_connect :: "'t Connection \<Rightarrow> ResourceId \<Rightarrow> 't \<Rightarrow> bool \<times> 't Connection" where
  "Connection_connect c busId type =
     (if busId \<noteq> m_busId c
      then (True, c\<lparr>m_busId := busId, m_type := type\<rparr>)
      else (False, c\<lparr>m_type := type\<rparr>))"

text \<open>
  What the source can throw. \<open>buffer_overrun\<close> is not an exception of the source: it
  marks the calls where \<^verbatim>\<open>numFrames\<close> is larger than a buffer, where the source
  reads or writes beyond the buffer and its behaviour is undefined
  (\<^verbatim>\<open>Environment::process\<close> asserts \<^verbatim>\<open>numFrames <= blockSize()\<close>).
  \<open>bad_alloc\<close> is the \<^verbatim>\<open>std::bad_alloc\<close> of the realtime memory manager.
\<close>

datatype Methcla_Error = kMethcla_NodeIdError | kMethcla_NodeTypeError

datatype exn =
    Error Methcla_Error
  | runtime_error string
  | ParseError
  | out_of_range
  | buffer_overrun
  | bad_alloc

text \<open>The part of \<^verbatim>\<open>EnvironmentImpl\<close> that holds the epoch and the buses.\<close>

record 'a AudioState =
  m_epoch :: Epoch
  m_externalAudioInputs :: "'a AudioBus list"
  m_externalAudioOutputs :: "'a AudioBus list"
  m_internalAudioBuses :: "'a AudioBus list"

text \<open>\<^verbatim>\<open>Environment::audioBus\<close> is \<^verbatim>\<open>m_internalAudioBuses.at(id)\<close>, which throws out of range.\<close>

definition audioBus :: "'a AudioState \<Rightarrow> AudioBusId \<Rightarrow> exn + 'a AudioBus" where
  "audioBus env busId =
     (if busId < length (m_internalAudioBuses env)
      then Inr (m_internalAudioBuses env ! busId) else Inl out_of_range)"

text \<open>The bus is reached by reference: a change of the bus is a change of the environment.\<close>

definition setAudioBus :: "'a AudioState \<Rightarrow> AudioBusId \<Rightarrow> 'a AudioBus \<Rightarrow> 'a AudioState" where
  "setAudioBus env busId bus =
     env\<lparr>m_internalAudioBuses := (m_internalAudioBuses env)[busId := bus]\<rparr>"

text \<open>\<^verbatim>\<open>memset(dst, 0, numFrames * sizeof(sample_t))\<close> on a destination of \<open>numFrames\<close> samples.\<close>

definition silence :: "nat \<Rightarrow> 'a::zero list" where
  "silence numFrames = replicate numFrames 0"

text \<open>\<^verbatim>\<open>memcpy(dst, src, numFrames * sizeof(sample_t))\<close>: the first \<open>numFrames\<close> samples change.\<close>

definition memcpy :: "'a list \<Rightarrow> 'a list \<Rightarrow> nat \<Rightarrow> 'a list" where
  "memcpy dst src numFrames = take numFrames src @ drop numFrames dst"

text \<open>The loop \<^verbatim>\<open>for (size_t i=0; i < numFrames; i++) dst[i] += src[i];\<close>\<close>

definition accumulate :: "'a::plus list \<Rightarrow> 'a list \<Rightarrow> nat \<Rightarrow> 'a list" where
  "accumulate dst src numFrames = fold (\<lambda>i d. d[i := d ! i + src ! i]) [0..<numFrames] dst"

text \<open>
  \<^verbatim>\<open>AudioInputConnection::read\<close>. The result is the content of \<^verbatim>\<open>dst\<close>, a buffer of
  \<open>numFrames\<close> samples. The lock is taken and released within the call and has no effect
  on the single audio thread.
\<close>

definition AudioInputConnection_read :: "AudioInputConnection \<Rightarrow> 'a::zero AudioState \<Rightarrow> nat \<Rightarrow> exn + 'a list" where
  "AudioInputConnection_read c env numFrames =
     (case m_busId c of
        Some busId \<Rightarrow>
          (case audioBus env busId of
             Inl e \<Rightarrow> Inl e
           | Inr bus \<Rightarrow>
               if length (data bus) < numFrames then Inl buffer_overrun
               else if epoch bus = m_epoch env
                 then Inr (memcpy (silence numFrames) (data bus) numFrames)
                 else Inr (silence numFrames))
      | None \<Rightarrow> Inr (silence numFrames))"

text \<open>\<^verbatim>\<open>AudioOutputConnection::write\<close>.\<close>

definition AudioOutputConnection_write ::
  "AudioOutputConnection \<Rightarrow> 'a::plus AudioState \<Rightarrow> nat \<Rightarrow> 'a list \<Rightarrow> exn + 'a AudioState" where
  "AudioOutputConnection_write c env numFrames src =
     (case m_busId c of
        Some busId \<Rightarrow>
          (case audioBus env busId of
             Inl e \<Rightarrow> Inl e
           | Inr bus \<Rightarrow>
               if length (data bus) < numFrames \<or> length src < numFrames then Inl buffer_overrun
               else if epoch bus = m_epoch env
                 then Inr (setAudioBus env busId
                             (bus\<lparr>data := accumulate (data bus) src numFrames\<rparr>))
                 else Inr (setAudioBus env busId
                             (bus\<lparr>data := memcpy (data bus) src numFrames,
                                  epoch := m_epoch env\<rparr>)))
      | None \<Rightarrow> Inr env)"

text \<open>
  The writes of one block, one after the other: each synth writes its output buffer
  through its own output connection. An exception ends the sequence.
\<close>

fun writes ::
  "(AudioOutputConnection \<times> 'a::plus list) list \<Rightarrow> 'a AudioState \<Rightarrow> nat \<Rightarrow> exn + 'a AudioState" where
  "writes [] env numFrames = Inr env"
| "writes ((c, src) # ws) env numFrames =
     (case AudioOutputConnection_write c env numFrames src of
        Inl e \<Rightarrow> Inl e
      | Inr env' \<Rightarrow> writes ws env' numFrames)"

section \<open>OSC packets\<close>

text \<open>
  The OSC decoder (\<^verbatim>\<open>oscpp\<close>) is a library outside the repository. A request is taken
  as the packet it decodes to: a message is an address and a stream of arguments, a bundle
  is a 64-bit OSC time and a list of packets. The readers of the argument stream
  (\<^verbatim>\<open>args.int32()\<close>, \<^verbatim>\<open>args.string()\<close>, ...) return the value and the rest of the
  stream; \<open>None\<close> is the exception the decoder throws when the next argument is
  missing or of another type, which the dispatcher sees as \<open>ParseError\<close>.
\<close>

datatype Arg = Int32 int | Float32 rat | Str string | Array "Arg list"

datatype Message = Message (address: string) (args: "Arg list")

datatype Packet = Msg Message | Bundle (bundle_time: nat) (packets: "Packet list")

fun args_int32 :: "Arg list \<Rightarrow> (int \<times> Arg list) option" where
  "args_int32 (Int32 i # rest) = Some (i, rest)"
| "args_int32 _ = None"

fun args_float32 :: "Arg list \<Rightarrow> (rat \<times> Arg list) option" where
  "args_float32 (Float32 x # rest) = Some (x, rest)"
| "args_float32 _ = None"

fun args_string :: "Arg list \<Rightarrow> (string \<times> Arg list) option" where
  "args_string (Str s # rest) = Some (s, rest)"
| "args_string _ = None"

fun args_array :: "Arg list \<Rightarrow> (Arg list \<times> Arg list) option" where
  "args_array (Array xs # rest) = Some (xs, rest)"
| "args_array _ = None"

fun args_drop :: "Arg list \<Rightarrow> Arg list option" where
  "args_drop (x # rest) = Some rest"
| "args_drop [] = None"

definition args_atEnd :: "Arg list \<Rightarrow> bool" where
  "args_atEnd xs = (xs = [])"

text \<open>\<^verbatim>\<open>args.atEnd() ? OSCPP::Server::ArgStream() : args.array()\<close>\<close>

definition args_optional_array :: "Arg list \<Rightarrow> (Arg list \<times> Arg list) option" where
  "args_optional_array xs = (if args_atEnd xs then Some ([], xs) else args_array xs)"

section \<open>Nodes, synth definitions and the node registry\<close>

text \<open>
  Node ids and bus ids are 32-bit unsigned: \<^verbatim>\<open>NodeId(args.int32())\<close> converts the
  signed argument.
\<close>

type_synonym NodeId = nat

type_synonym Methcla_Time = rat

type_synonym BusMappingFlags = int

definition NodeId :: "int \<Rightarrow> NodeId" where
  "NodeId i = nat (i mod 2 ^ 32)"

definition AudioBusId :: "int \<Rightarrow> AudioBusId" where
  "AudioBusId i = nat (i mod 2 ^ 32)"

text \<open>The fields of a synth definition that \<^verbatim>\<open>SynthDef.hpp\<close> reads.\<close>

record SynthDef =
  name :: string
  numAudioInputs :: nat
  numAudioOutputs :: nat
  numControlInputs :: nat
  numControlOutputs :: nat

datatype AddAction = kAddToHead | kAddToTail

text \<open>
  Modelled from the spec: the classes \<^verbatim>\<open>Node\<close>, \<^verbatim>\<open>Group\<close> and \<^verbatim>\<open>Synth\<close> of the
  \<^verbatim>\<open>Methcla\<close> namespace and the node map are missing from the sources. A node has a
  parent group (none for the root); a group has an ordered list of children; a synth has
  its definition, its control inputs, a bus mapping for each audio input and output
  (unmapped at first), and it is inactive until it is activated with a sample offset.

  A time (\<^verbatim>\<open>Methcla_Time\<close>, a \<^verbatim>\<open>double\<close>) and a control value (a \<^verbatim>\<open>float\<close>) are
  the rational numbers these stand for. The dispatcher compares times and stores control
  values; the two places where the source computes in floating point are not computed
  here. The sample offset of an activation,
  \<^verbatim>\<open>const float sampleOffset = (scheduleTime - currentTime) * sampleRate()\<close>, is kept as
  the three operands of that expression, and the end time of a block is an argument of
  \<^verbatim>\<open>process\<close> below.
\<close>

datatype SampleOffset = float_product Methcla_Time Methcla_Time rat

text \<open>
  The sample index a synth records for an offset: the offset rounded, which is not
  computed either.
\<close>

datatype SampleIndex = rounded SampleOffset

record Synth =
  m_synthDef :: SynthDef
  m_controlBuffers :: "rat list"
  m_audioInputs :: "(AudioBusId \<times> BusMappingFlags) option list"
  m_audioOutputs :: "(AudioBusId \<times> BusMappingFlags) option list"
  m_active :: bool
  m_sampleOffset :: "SampleIndex option"

datatype Node =
    GroupNode (m_parent: "NodeId option") (m_children: "NodeId list")
  | SynthNode (m_parent: "NodeId option") (m_synth: Synth)

fun isGroup :: "Node \<Rightarrow> bool" where
  "isGroup (GroupNode p cs) = True"
| "isGroup (SynthNode p s) = False"

definition isSynth :: "Node \<Rightarrow> bool" where
  "isSynth n = (\<not> isGroup n)"

text \<open>
  Modelled from the spec: \<^verbatim>\<open>Synth::activate\<close> is missing. The synth becomes active
  and records the sample offset it is given, rounded to a sample index.
\<close>

definition activate :: "Synth \<Rightarrow> SampleOffset \<Rightarrow> Synth" where
  "activate s offset = s\<lparr>m_active := True, m_sampleOffset := Some (rounded offset)\<rparr>"

text \<open>
  Modelled from the spec: \<^verbatim>\<open>Synth::mapInput\<close> and \<^verbatim>\<open>Synth::mapOutput\<close> are missing;
  they bind the connection of the port to the bus. The dispatcher has checked the index.
\<close>

definition mapInput :: "Synth \<Rightarrow> nat \<Rightarrow> AudioBusId \<Rightarrow> BusMappingFlags \<Rightarrow> Synth" where
  "mapInput s i busId flags = s\<lparr>m_audioInputs := (m_audioInputs s)[i := Some (busId, flags)]\<rparr>"

definition mapOutput :: "Synth \<Rightarrow> nat \<Rightarrow> AudioBusId \<Rightarrow> BusMappingFlags \<Rightarrow> Synth" where
  "mapOutput s i busId flags = s\<lparr>m_audioOutputs := (m_audioOutputs s)[i := Some (busId, flags)]\<rparr>"

section \<open>The scheduler\<close>

text \<open>
  A request is a reference-counted OSC packet; the count decides when the packet's memory
  is handed to the worker and nothing else, so a request is its packet here.
\<close>

type_synonym Request = Packet

record ScheduleItem =
  m_time :: Methcla_Time
  m_request :: Request

text \<open>
  The queue is \<^verbatim>\<open>boost::heap::priority_queue\<close> with \<^verbatim>\<open>stable<true>\<close>, a library
  outside the repository. With \<^verbatim>\<open>ScheduleItem::operator<\<close> (\<open>a < b\<close> when
  \<open>a.time() > b.time()\<close>) its top is an item with the least time, and stability makes it
  the one pushed first among those. The queue is the list of its items in the order
  of the pushes.
\<close>

fun pq_top :: "ScheduleItem list \<Rightarrow> ScheduleItem option" where
  "pq_top [] = None"
| "pq_top (x # xs) =
     (case pq_top xs of
        None \<Rightarrow> Some x
      | Some y \<Rightarrow> if m_time y < m_time x then Some y else Some x)"

definition pq_pop :: "ScheduleItem list \<Rightarrow> ScheduleItem list" where
  "pq_pop q = (case pq_top q of None \<Rightarrow> q | Some x \<Rightarrow> remove1 x q)"

record Scheduler =
  m_maxSize :: nat
  m_queue :: "ScheduleItem list"

definition Scheduler :: "nat \<Rightarrow> Scheduler" where
  "Scheduler maxSize = \<lparr>m_maxSize = maxSize, m_queue = []\<rparr>"

definition push :: "Scheduler \<Rightarrow> Methcla_Time \<Rightarrow> Request \<Rightarrow> exn + Scheduler" where
  "push s time request =
     (if length (m_queue s) < m_maxSize s
      then Inr (s\<lparr>m_queue := m_queue s @ [\<lparr>m_time = time, m_request = request\<rparr>]\<rparr>)
      else Inl (runtime_error ''Scheduler queue overflow''))"

definition isEmpty :: "Scheduler \<Rightarrow> bool" where
  "isEmpty s = (m_queue s = [])"

text \<open>\<^verbatim>\<open>time\<close>, \<^verbatim>\<open>top\<close> and \<^verbatim>\<open>pop\<close> assert that the queue is not empty.\<close>

definition top_item :: "Scheduler \<Rightarrow> ScheduleItem option" where
  "top_item s = pq_top (m_queue s)"

definition pop :: "Scheduler \<Rightarrow> Scheduler" where
  "pop s = s\<lparr>m_queue := pq_pop (m_queue s)\<rparr>"

section \<open>The environment\<close>

text \<open>
  Modelled from the spec: \<^verbatim>\<open>Methcla_RequestId\<close> and \<^verbatim>\<open>kMethcla_Notification\<close> are
  declared outside the sources. A request id is the id of a client's request or the
  sentinel \<open>Notification\<close>, "used for engine-initiated messages not tied to a client
  request".
\<close>

datatype Methcla_RequestId = kMethcla_Notification | RequestId int

record ErrorData =
  requestId :: Methcla_RequestId
  message :: string

text \<open>
  The commands the audio thread sends to the worker. Only the error response is kept;
  the commands that free memory have no effect on the state below.
\<close>

datatype Command = perform_response_error ErrorData

text \<open>The calls of the two \<^verbatim>\<open>processMessage\<close> functions, logged in the order they are made.\<close>

datatype Call =
    PhaseA Message
  | PhaseB Message Methcla_Time Methcla_Time

text \<open>
  The state of \<^verbatim>\<open>Environment\<close> and \<^verbatim>\<open>EnvironmentImpl\<close>. The node map is a list of
  ids and nodes, looked up with \<open>map_of\<close>; \<open>m_worker\<close> holds the commands sent to the
  worker and \<open>cerr\<close> the lines written to \<^verbatim>\<open>std::cerr\<close>.

  Modelled from the spec: the realtime memory manager (\<^verbatim>\<open>m_rtMem\<close>) is missing. It is a
  region of fixed size; its state here is the number of bytes that are free, and an
  allocation takes its bytes or throws \<^verbatim>\<open>std::bad_alloc\<close> when fewer are free.
  Fragmentation and alignment are not modelled, nor are the allocations of the plugins
  and of \<^verbatim>\<open>construct\<close>, whose code is missing; the bytes that the commands of the
  worker give back are an argument of \<^verbatim>\<open>process\<close>.

  Two fields are not variables of the program: \<open>calls\<close> is the log of the calls of
  \<^verbatim>\<open>processMessage\<close>, and \<open>uncaught\<close> is the exception on its way up the stack, if
  one has left the handler of \<^verbatim>\<open>processMessage\<close>. Every function that calls the
  dispatcher looks at it when the call returns: it is how the exception passes
  through that function, to the \<^verbatim>\<open>catch\<close> of \<^verbatim>\<open>processRequests\<close> or out of the
  callback.
\<close>

record 'a Environment =
  m_sampleRate :: rat
  m_blockSize :: nat
  m_maxNumNodes :: nat
  m_nodes :: "(NodeId \<times> Node) list"
  m_synthDefs :: "(string \<times> SynthDef) list"
  m_scheduler :: Scheduler
  m_worker :: "Command list"
  m_rtMem :: nat
  m_audio :: "'a AudioState"
  cerr :: "string list"
  calls :: "Call list"
  uncaught :: "exn option"

definition lookup :: "'a Environment \<Rightarrow> NodeId \<Rightarrow> Node option" where
  "lookup env nodeId = map_of (m_nodes env) nodeId"

definition contains :: "'a Environment \<Rightarrow> NodeId \<Rightarrow> bool" where
  "contains env nodeId = (lookup env nodeId \<noteq> None)"

text \<open>The root group has id 0 (\<^verbatim>\<open>Group::construct(*this, NodeId(0), nullptr, ...)\<close>).\<close>

definition rootNode_id :: NodeId where
  "rootNode_id = 0"

text \<open>A change of a node that the code reaches through a pointer into the map.\<close>

definition setNode :: "'a Environment \<Rightarrow> NodeId \<Rightarrow> Node \<Rightarrow> 'a Environment" where
  "setNode env nodeId node =
     env\<lparr>m_nodes := map (\<lambda>(k, n). if k = nodeId then (k, node) else (k, n)) (m_nodes env)\<rparr>"

text \<open>
  Modelled from the spec: the node map's \<^verbatim>\<open>insert\<close> is missing. The map has room for
  \<open>maxNumNodes\<close> nodes and "the engine refuses duplicates".
\<close>

definition insert_node :: "'a Environment \<Rightarrow> NodeId \<Rightarrow> Node \<Rightarrow> exn + 'a Environment" where
  "insert_node env nodeId node =
     (if contains env nodeId \<or> m_maxNumNodes env \<le> length (m_nodes env)
      then Inl (Error kMethcla_NodeIdError)
      else Inr (env\<lparr>m_nodes := m_nodes env @ [(nodeId, node)]\<rparr>))"

text \<open>
  Modelled from the spec: the node map's \<^verbatim>\<open>remove\<close> and the destructor of a node are
  missing. The node leaves the map and the children of its parent.
\<close>

definition remove_node :: "'a Environment \<Rightarrow> NodeId \<Rightarrow> 'a Environment" where
  "remove_node env nodeId =
     env\<lparr>m_nodes :=
       map (\<lambda>(k, n). case n of
              GroupNode p cs \<Rightarrow> (k, GroupNode p (removeAll nodeId cs))
            | SynthNode p s \<Rightarrow> (k, n))
         (filter (\<lambda>(k, n). k \<noteq> nodeId) (m_nodes env))\<rparr>"

text \<open>
  Modelled from the spec: \<^verbatim>\<open>Group::construct\<close> and \<^verbatim>\<open>Synth::construct\<close> are
  missing. The new node is linked under the target group, at the tail of its children
  for \<open>kAddToTail\<close> and at their head for \<open>kAddToHead\<close>; a null target (the root's)
  links nothing. The control inputs start from the initialisers of the message that are
  floats, and from zero where there are none.
\<close>

definition addToGroup :: "'a Environment \<Rightarrow> NodeId option \<Rightarrow> NodeId \<Rightarrow> AddAction \<Rightarrow> 'a Environment" where
  "addToGroup env target nodeId addAction =
     (case target of
        None \<Rightarrow> env
      | Some g \<Rightarrow>
          (case lookup env g of
             Some (GroupNode p cs) \<Rightarrow>
               setNode env g (GroupNode p
                 (case addAction of kAddToTail \<Rightarrow> cs @ [nodeId] | kAddToHead \<Rightarrow> nodeId # cs))
           | _ \<Rightarrow> env))"

definition Group_construct ::
  "'a Environment \<Rightarrow> NodeId \<Rightarrow> NodeId option \<Rightarrow> AddAction \<Rightarrow> 'a Environment \<times> Node" where
  "Group_construct env nodeId target addAction =
     (addToGroup env target nodeId addAction, GroupNode target [])"

fun control_value :: "Arg \<Rightarrow> rat" where
  "control_value (Float32 x) = x"
| "control_value _ = 0"

definition Synth_construct ::
  "'a Environment \<Rightarrow> NodeId \<Rightarrow> NodeId option \<Rightarrow> AddAction \<Rightarrow> SynthDef \<Rightarrow> Arg list \<Rightarrow> Arg list
     \<Rightarrow> 'a Environment \<times> Node" where
  "Synth_construct env nodeId target addAction def synthControls synthArgs =
     (addToGroup env target nodeId addAction,
      SynthNode target
        \<lparr>m_synthDef = def,
          m_controlBuffers =
            map (\<lambda>i. if i < length synthControls then control_value (synthControls ! i) else 0)
              [0..<numControlInputs def],
          m_audioInputs = replicate (numAudioInputs def) None,
          m_audioOutputs = replicate (numAudioOutputs def) None,
          m_active = False,
          m_sampleOffset = None\<rparr>)"

text \<open>\<^verbatim>\<open>Environment::synthDef\<close>\<close>

definition synthDef :: "'a Environment \<Rightarrow> string \<Rightarrow> exn + SynthDef" where
  "synthDef env uri =
     (case map_of (m_synthDefs env) uri of
        None \<Rightarrow> Inl (runtime_error ''Synth definition not found'')
      | Some d \<Rightarrow> Inr d)"

text \<open>
  Modelled from the spec: \<^verbatim>\<open>what()\<close> of a \<^verbatim>\<open>Methcla::Error\<close> is declared outside the
  sources; the texts are the names of the error kinds (the specification's scenario of
  a bad node id expects \<^verbatim>\<open>message="NodeIdError"\<close>). The text of the decoder's exception
  is not specified.
\<close>

fun what :: "exn \<Rightarrow> string" where
  "what (Error kMethcla_NodeIdError) = ''NodeIdError''"
| "what (Error kMethcla_NodeTypeError) = ''NodeTypeError''"
| "what (runtime_error s) = s"
| "what ParseError = ''ParseError''"
| "what out_of_range = ''out_of_range''"
| "what buffer_overrun = ''buffer_overrun''"
| "what bad_alloc = ''std::bad_alloc''"

text \<open>
  \<^verbatim>\<open>sizeof(EnvironmentImpl::ErrorData)\<close>, an \<^verbatim>\<open>int32_t\<close> and a pointer, where
  pointers have eight bytes.
\<close>

definition sizeof_ErrorData :: nat where
  "sizeof_ErrorData = 16"

text \<open>
  \<^verbatim>\<open>Environment::replyError\<close>: the error data is allocated in realtime memory
  (\<^verbatim>\<open>sizeof(ErrorData) + strlen(msg) + 1\<close> bytes) and goes to the worker, which sends the
  reply (\<^verbatim>\<open>perform_response_error\<close>). The function has no handler: when the allocation
  throws, the exception leaves it, and nothing is sent.
\<close>

definition replyError :: "'a Environment \<Rightarrow> Methcla_RequestId \<Rightarrow> string \<Rightarrow> 'a Environment" where
  "replyError env rid msg =
     (if m_rtMem env < sizeof_ErrorData + length msg + 1
      then env\<lparr>uncaught := Some bad_alloc\<rparr>
      else env\<lparr>m_worker :=
                 m_worker env @ [perform_response_error \<lparr>requestId = rid, message = msg\<rparr>],
               m_rtMem := m_rtMem env - (sizeof_ErrorData + length msg + 1)\<rparr>)"

text \<open>
  \<^verbatim>\<open>Environment::perform_response_error\<close> builds the packet the client receives:
  the address \<^verbatim>\<open>/error\<close>, the request id and the message.
\<close>

record Reply =
  reply_address :: string
  reply_requestId :: Methcla_RequestId
  reply_message :: string

fun perform :: "Command \<Rightarrow> Reply" where
  "perform (perform_response_error d) =
     \<lparr>reply_address = ''/error'', reply_requestId = requestId d, reply_message = message d\<rparr>"

text \<open>The replies the client receives for the commands sent to the worker.\<close>

definition replies :: "'a Environment \<Rightarrow> Reply list" where
  "replies env = map perform (m_worker env)"

section \<open>The request dispatcher\<close>

subsection \<open>Phase A: \<^verbatim>\<open>bool Environment::processMessage(const Message&)\<close>\<close>

text \<open>The arguments \<^verbatim>\<open>/group/new\<close> reads: node id, target id, and one argument dropped.\<close>

definition group_new_args :: "Arg list \<Rightarrow> (NodeId \<times> NodeId) option" where
  "group_new_args a0 = do {
     (nodeId, a1) \<leftarrow> args_int32 a0;
     (targetId, a2) \<leftarrow> args_int32 a1;
     a3 \<leftarrow> args_drop a2;
     Some (NodeId nodeId, NodeId targetId)
   }"

text \<open>
  The arguments \<^verbatim>\<open>/synth/new\<close> reads before it looks up the synth definition: its name,
  node id, target id, and one argument dropped; the rest of the stream is returned.
\<close>

definition synth_new_args :: "Arg list \<Rightarrow> (string \<times> NodeId \<times> NodeId \<times> Arg list) option" where
  "synth_new_args a0 = do {
     (defName, a1) \<leftarrow> args_string a0;
     (nodeId, a2) \<leftarrow> args_int32 a1;
     (targetId, a3) \<leftarrow> args_int32 a2;
     a4 \<leftarrow> args_drop a3;
     Some (defName, NodeId nodeId, NodeId targetId, a4)
   }"

text \<open>The two optional arrays of \<^verbatim>\<open>/synth/new\<close>: control initialisers and synth arguments.\<close>

definition synth_new_arrays :: "Arg list \<Rightarrow> (Arg list \<times> Arg list) option" where
  "synth_new_arrays a4 = do {
     (synthControls, a5) \<leftarrow> args_optional_array a4;
     (synthArgs, a6) \<leftarrow> args_optional_array a5;
     Some (synthControls, synthArgs)
   }"

text \<open>
  \<^verbatim>\<open>targetNode->isGroup() ? dynamic_cast<Group*>(targetNode)
                        : dynamic_cast<Synth*>(targetNode)->parent()\<close>
\<close>

definition targetGroup :: "NodeId \<Rightarrow> Node \<Rightarrow> NodeId option" where
  "targetGroup targetId targetNode =
     (if isGroup targetNode then Some targetId else m_parent targetNode)"

text \<open>
  The branches of the \<^verbatim>\<open>try\<close> block, one for each address it knows: the
  environment as the branch leaves it, and either the exception it throws or the value
  it returns. An exception thrown after \<^verbatim>\<open>construct\<close> leaves the new node linked.
\<close>

definition group_new ::
  "Arg list \<Rightarrow> 'a Environment \<Rightarrow> 'a Environment \<times> (exn + bool option)" where
  "group_new a env =
     (case group_new_args a of
        None \<Rightarrow> (env, Inl ParseError)
      | Some (nodeId, targetId) \<Rightarrow>
          (case lookup env targetId of
             None \<Rightarrow> (env, Inl (Error kMethcla_NodeIdError))
           | Some targetNode \<Rightarrow>
               (case Group_construct env nodeId (targetGroup targetId targetNode) kAddToTail of
                  (env1, newGroup) \<Rightarrow>
                    (case insert_node env1 nodeId newGroup of
                       Inl e \<Rightarrow> (env1, Inl e)
                     | Inr env2 \<Rightarrow> (env2, Inr (Some False))))))"

definition synth_new ::
  "Arg list \<Rightarrow> 'a Environment \<Rightarrow> 'a Environment \<times> (exn + bool option)" where
  "synth_new a env =
     (case synth_new_args a of
        None \<Rightarrow> (env, Inl ParseError)
      | Some (defName, nodeId, targetId, a4) \<Rightarrow>
          (case synthDef env defName of
             Inl e \<Rightarrow> (env, Inl e)
           | Inr def \<Rightarrow>
               (case synth_new_arrays a4 of
                  None \<Rightarrow> (env, Inl ParseError)
                | Some (synthControls, synthArgs) \<Rightarrow>
                    (case lookup env targetId of
                       None \<Rightarrow> (env, Inl (Error kMethcla_NodeIdError))
                     | Some targetNode \<Rightarrow>
                         (case Synth_construct env nodeId (targetGroup targetId targetNode)
                                 kAddToTail def synthControls synthArgs of
                            (env1, newSynth) \<Rightarrow>
                              (case insert_node env1 nodeId newSynth of
                                 Inl e \<Rightarrow> (env1, Inl e)
                               | Inr env2 \<Rightarrow> (env2, Inr (Some True))))))))"

text \<open>
  The \<^verbatim>\<open>try\<close> block. The handlers of the two query addresses are commented out in
  the source; \<open>None\<close> is the block running to its end without \<^verbatim>\<open>return\<close>.
\<close>

definition processMessage_A_try ::
  "Message \<Rightarrow> 'a Environment \<Rightarrow> 'a Environment \<times> (exn + bool option)" where
  "processMessage_A_try msg env =
     (if address msg = ''/group/new'' then group_new (args msg) env
      else if address msg = ''/synth/new'' then synth_new (args msg) env
      else if address msg = ''/query/external_inputs'' then (env, Inr None)
      else if address msg = ''/query/external_outputs'' then (env, Inr None)
      else (env, Inr None))"

text \<open>
  The function: the call is logged, an exception of the body is answered with
  \<^verbatim>\<open>replyError(kMethcla_Notification, e.what())\<close>, and everything that does not return
  from within the body returns \<^verbatim>\<open>true\<close>. When \<^verbatim>\<open>replyError\<close> throws in the handler,
  the function returns nothing: the exception is in \<open>uncaught\<close>, and the boolean is
  not looked at.
\<close>

definition processMessage_A :: "Message \<Rightarrow> 'a Environment \<Rightarrow> bool \<times> 'a Environment" where
  "processMessage_A msg env =
     (case processMessage_A_try msg (env\<lparr>calls := calls env @ [PhaseA msg]\<rparr>) of
        (env', Inl e) \<Rightarrow> (True, replyError env' kMethcla_Notification (what e))
      | (env', Inr (Some needsScheduling)) \<Rightarrow> (needsScheduling, env')
      | (env', Inr None) \<Rightarrow> (True, env'))"

subsection \<open>Phase B: \<^verbatim>\<open>void Environment::processMessage(const Message&, Methcla_Time, Methcla_Time)\<close>\<close>

text \<open>
  The test every handler of phase B makes on the node it is given:
  \<^verbatim>\<open>if (node == nullptr) throw Error(kMethcla_NodeIdError);
  else if (!node->isSynth()) throw Error(kMethcla_NodeTypeError);\<close>
\<close>

definition lookupSynth :: "'a Environment \<Rightarrow> NodeId \<Rightarrow> exn + (NodeId option \<times> Synth)" where
  "lookupSynth env nodeId =
     (case lookup env nodeId of
        None \<Rightarrow> Inl (Error kMethcla_NodeIdError)
      | Some (GroupNode p cs) \<Rightarrow> Inl (Error kMethcla_NodeTypeError)
      | Some (SynthNode p s) \<Rightarrow> Inr (p, s))"

definition synth_activate_args :: "Arg list \<Rightarrow> NodeId option" where
  "synth_activate_args a0 = do {
     a1 \<leftarrow> args_drop a0;
     (nodeId, a2) \<leftarrow> args_int32 a1;
     Some (NodeId nodeId)
   }"

definition node_free_args :: "Arg list \<Rightarrow> NodeId option" where
  "node_free_args a0 = do {
     (nodeId, a1) \<leftarrow> args_int32 a0;
     Some (NodeId nodeId)
   }"

definition node_set_args :: "Arg list \<Rightarrow> (NodeId \<times> int \<times> rat) option" where
  "node_set_args a0 = do {
     (nodeId, a1) \<leftarrow> args_int32 a0;
     (index, a2) \<leftarrow> args_int32 a1;
     (v, a3) \<leftarrow> args_float32 a2;
     Some (NodeId nodeId, index, v)
   }"

definition synth_map_args :: "Arg list \<Rightarrow> (NodeId \<times> int \<times> AudioBusId \<times> BusMappingFlags) option" where
  "synth_map_args a0 = do {
     (nodeId, a1) \<leftarrow> args_int32 a0;
     (index, a2) \<leftarrow> args_int32 a1;
     (busId, a3) \<leftarrow> args_int32 a2;
     (flags, a4) \<leftarrow> args_int32 a3;
     Some (NodeId nodeId, index, AudioBusId busId, flags)
   }"

text \<open>
  The branches of the \<^verbatim>\<open>try\<close> block, one for each address it knows. Every branch
  makes its checks before it changes anything, so it either throws or returns the
  changed environment. The cast \<^verbatim>\<open>(int32_t)synth->numControlInputs()\<close> is the
  number itself for fewer than \<open>2\<^sup>3\<^sup>1\<close> ports. The sample offset \<^verbatim>\<open>/synth/new\<close> hands to
  \<^verbatim>\<open>activate\<close> is the float
  \<^verbatim>\<open>(scheduleTime - currentTime) * sampleRate()\<close>, kept as its operands.
\<close>

definition synth_activate ::
  "Arg list \<Rightarrow> Methcla_Time \<Rightarrow> Methcla_Time \<Rightarrow> 'a Environment \<Rightarrow> exn + 'a Environment" where
  "synth_activate a scheduleTime currentTime env =
     (case synth_activate_args a of
        None \<Rightarrow> Inl ParseError
      | Some nodeId \<Rightarrow>
          (case lookupSynth env nodeId of
             Inl e \<Rightarrow> Inl e
           | Inr (p, synth) \<Rightarrow>
               Inr (setNode env nodeId
                     (SynthNode p
                        (activate synth
                           (float_product scheduleTime currentTime (m_sampleRate env)))))))"

definition node_free :: "Arg list \<Rightarrow> 'a Environment \<Rightarrow> exn + 'a Environment" where
  "node_free a env =
     (case node_free_args a of
        None \<Rightarrow> Inl ParseError
      | Some nodeId \<Rightarrow>
          if \<not> contains env nodeId then Inl (Error kMethcla_NodeIdError)
          else if nodeId = rootNode_id then Inl (Error kMethcla_NodeIdError)
          else Inr (remove_node env nodeId))"

definition node_set :: "Arg list \<Rightarrow> 'a Environment \<Rightarrow> exn + 'a Environment" where
  "node_set a env =
     (case node_set_args a of
        None \<Rightarrow> Inl ParseError
      | Some (nodeId, index, v) \<Rightarrow>
          (case lookupSynth env nodeId of
             Inl e \<Rightarrow> Inl e
           | Inr (p, synth) \<Rightarrow>
               if index < 0 \<or> index \<ge> int (numControlInputs (m_synthDef synth))
               then Inl (runtime_error ''Control input index out of range'')
               else Inr (setNode env nodeId
                     (SynthNode p
                        (synth\<lparr>m_controlBuffers := (m_controlBuffers synth)[nat index := v]\<rparr>)))))"

definition synth_map_input :: "Arg list \<Rightarrow> 'a Environment \<Rightarrow> exn + 'a Environment" where
  "synth_map_input a env =
     (case synth_map_args a of
        None \<Rightarrow> Inl ParseError
      | Some (nodeId, index, busId, flags) \<Rightarrow>
          (case lookupSynth env nodeId of
             Inl e \<Rightarrow> Inl e
           | Inr (p, synth) \<Rightarrow>
               if index < 0 \<or> index \<ge> int (numAudioInputs (m_synthDef synth))
               then Inl (runtime_error ''Synth input index out of range'')
               else Inr (setNode env nodeId
                     (SynthNode p (mapInput synth (nat index) busId flags)))))"

definition synth_map_output :: "Arg list \<Rightarrow> 'a Environment \<Rightarrow> exn + 'a Environment" where
  "synth_map_output a env =
     (case synth_map_args a of
        None \<Rightarrow> Inl ParseError
      | Some (nodeId, index, busId, flags) \<Rightarrow>
          (case lookupSynth env nodeId of
             Inl e \<Rightarrow> Inl e
           | Inr (p, synth) \<Rightarrow>
               if index < 0 \<or> index \<ge> int (numAudioOutputs (m_synthDef synth))
               then Inl (runtime_error ''Synth output index out of range'')
               else Inr (setNode env nodeId
                     (SynthNode p (mapOutput synth (nat index) busId flags)))))"

text \<open>
  The \<^verbatim>\<open>try\<close> block, and the function: the call is logged, and an exception of the
  body is answered with \<^verbatim>\<open>replyError(kMethcla_Notification, e.what())\<close>, which may throw
  in its turn.
\<close>

definition processMessage_B_try ::
  "Message \<Rightarrow> Methcla_Time \<Rightarrow> Methcla_Time \<Rightarrow> 'a Environment \<Rightarrow> exn + 'a Environment" where
  "processMessage_B_try msg scheduleTime currentTime env =
     (if address msg = ''/synth/new'' then synth_activate (args msg) scheduleTime currentTime env
      else if address msg = ''/node/free'' then node_free (args msg) env
      else if address msg = ''/node/set'' then node_set (args msg) env
      else if address msg = ''/synth/map/input'' then synth_map_input (args msg) env
      else if address msg = ''/synth/map/output'' then synth_map_output (args msg) env
      else Inr env)"

definition processMessage_B ::
  "Message \<Rightarrow> Methcla_Time \<Rightarrow> Methcla_Time \<Rightarrow> 'a Environment \<Rightarrow> 'a Environment" where
  "processMessage_B msg scheduleTime currentTime env =
     (let env0 = env\<lparr>calls := calls env @ [PhaseB msg scheduleTime currentTime]\<rparr>
      in case processMessage_B_try msg scheduleTime currentTime env0 of
           Inl e \<Rightarrow> replyError env0 kMethcla_Notification (what e)
         | Inr env' \<Rightarrow> env')"

subsection \<open>Bundles\<close>

text \<open>
  \<^verbatim>\<open>bool Environment::processBundle(const Bundle&)\<close>, over the packets of the bundle.
  \<^verbatim>\<open>needsScheduling |= ...\<close> evaluates its right side for every packet. The loop has no
  handler: an exception that has left a packet ends it.
\<close>

fun processBundle_A :: "Packet list \<Rightarrow> 'a Environment \<Rightarrow> bool \<times> 'a Environment"
  and processPacket_A :: "Packet \<Rightarrow> 'a Environment \<Rightarrow> bool \<times> 'a Environment" where
  "processBundle_A [] env = (False, env)"
| "processBundle_A (p # ps) env =
     (case processPacket_A p env of
        (b, env1) \<Rightarrow>
          if uncaught env1 \<noteq> None then (b, env1)
          else (case processBundle_A ps env1 of (b', env2) \<Rightarrow> (b \<or> b', env2)))"
| "processPacket_A (Msg msg) env = processMessage_A msg env"
| "processPacket_A (Bundle t ps) env = processBundle_A ps env"

text \<open>
  \<^verbatim>\<open>void Environment::processBundle(const Bundle&, Methcla_Time, Methcla_Time)\<close>:
  nested bundles are flattened, every message gets the schedule time of the outermost.
  Here too an exception that has left a packet ends the loop.
\<close>

fun processBundle_B :: "Packet list \<Rightarrow> Methcla_Time \<Rightarrow> Methcla_Time \<Rightarrow> 'a Environment \<Rightarrow> 'a Environment"
  and processPacket_B :: "Packet \<Rightarrow> Methcla_Time \<Rightarrow> Methcla_Time \<Rightarrow> 'a Environment \<Rightarrow> 'a Environment" where
  "processBundle_B [] scheduleTime currentTime env = env"
| "processBundle_B (p # ps) scheduleTime currentTime env =
     (let env1 = processPacket_B p scheduleTime currentTime env
      in if uncaught env1 \<noteq> None then env1
         else processBundle_B ps scheduleTime currentTime env1)"
| "processPacket_B (Msg msg) scheduleTime currentTime env =
     processMessage_B msg scheduleTime currentTime env"
| "processPacket_B (Bundle t ps) scheduleTime currentTime env =
     processBundle_B ps scheduleTime currentTime env"

subsection \<open>\<^verbatim>\<open>Environment::processRequests\<close>\<close>

text \<open>
  Modelled from the spec: \<^verbatim>\<open>methcla_time_from_uint64\<close> is declared outside the sources.
  An OSC time is a 64-bit NTP timestamp: seconds in the upper 32 bits, the fraction of a
  second in the lower 32 bits. The quotient here is exact; it is the \<^verbatim>\<open>double\<close> of the
  source for every timestamp below \<open>2\<^sup>5\<^sup>3\<close>, which a double holds exactly.
\<close>

definition methcla_time_from_uint64 :: "nat \<Rightarrow> Methcla_Time" where
  "methcla_time_from_uint64 t = of_nat t / 2 ^ 32"

text \<open>
  The \<^verbatim>\<open>try\<close> block of one turn of the loop, for the request \<^verbatim>\<open>m_requests.next\<close> has
  returned. A request is a packet the decoder has accepted. The exceptions that leave
  the block are the scheduler's, when the queue is full, and the one of \<^verbatim>\<open>replyError\<close>
  in a handler of \<^verbatim>\<open>processMessage\<close>.
\<close>

definition processRequest_try :: "Methcla_Time \<Rightarrow> Request \<Rightarrow> 'a Environment \<Rightarrow> 'a Environment" where
  "processRequest_try currentTime request env =
     (case request of
        Bundle t ps \<Rightarrow>
          (case processBundle_A ps env of
             (needsScheduling, env1) \<Rightarrow>
               if uncaught env1 \<noteq> None then env1
               else if needsScheduling then
                 if t = 1 then processPacket_B request currentTime currentTime env1
                 else
                   (case push (m_scheduler env1) (methcla_time_from_uint64 t) request of
                      Inr s \<Rightarrow> env1\<lparr>m_scheduler := s\<rparr>
                    | Inl e \<Rightarrow> env1\<lparr>uncaught := Some e\<rparr>)
               else env1)
      | Msg msg \<Rightarrow>
          (case processMessage_A msg env of
             (needsScheduling, env1) \<Rightarrow>
               if uncaught env1 \<noteq> None then env1
               else if needsScheduling then processMessage_B msg currentTime currentTime env1
               else env1))"

text \<open>
  \<^verbatim>\<open>catch (std::exception& e)\<close> of the loop: the handler writes a line to \<^verbatim>\<open>std::cerr\<close>,
  the exception is gone, and the loop goes on.
\<close>

definition catch_exception :: "'a Environment \<Rightarrow> 'a Environment" where
  "catch_exception env =
     (case uncaught env of
        None \<Rightarrow> env
      | Some e \<Rightarrow>
          env\<lparr>cerr := cerr env @
                 [''Unhandled exception in '' @ [CHR 0x60] @ ''processRequests'' @
                  [CHR 0x27] @ '': '' @ what e],
              uncaught := None\<rparr>)"

definition processRequest :: "Methcla_Time \<Rightarrow> Request \<Rightarrow> 'a Environment \<Rightarrow> 'a Environment" where
  "processRequest currentTime request env =
     catch_exception (processRequest_try currentTime request env)"

text \<open>The loop, over the requests in the queue, first in first out.\<close>

fun processRequests :: "Methcla_Time \<Rightarrow> Request list \<Rightarrow> 'a Environment \<Rightarrow> 'a Environment" where
  "processRequests currentTime [] env = env"
| "processRequests currentTime (request # requests) env =
     processRequests currentTime requests (processRequest currentTime request env)"

subsection \<open>\<^verbatim>\<open>Environment::processScheduler\<close>\<close>

text \<open>
  The time the scheduler drains up to is the \<^verbatim>\<open>double\<close> that \<^verbatim>\<open>Environment::process\<close>
  computes, \<^verbatim>\<open>currentTime + numFrames / sampleRate()\<close>. The floating-point arithmetic is
  not modelled: the value is an argument of the functions here, and it is whatever a
  \<^verbatim>\<open>double\<close> can be, a number, an infinity (the quotient by a sample rate of zero) or
  not a number (\<^verbatim>\<open>0 / 0\<close>). \<open>time_le\<close> is \<^verbatim>\<open>scheduleTime <= nextTime\<close> for the time of a
  scheduled item, which is a number: no number is at most a NaN.
\<close>

datatype double = Double rat | PlusInf | MinusInf | NaN

fun time_le :: "Methcla_Time \<Rightarrow> double \<Rightarrow> bool" where
  "time_le t (Double x) = (t \<le> x)"
| "time_le t PlusInf = True"
| "time_le t MinusInf = False"
| "time_le t NaN = False"

text \<open>
  The loop pops one item a turn, so it ends when the queue is empty at the latest. It
  has no handler: an exception that has left the dispatch of an item ends it, before
  the item is popped. The lemmas before the termination proof say that dispatching a
  request leaves the scheduler alone and that popping a queue that has a top makes it
  shorter.
\<close>

function processScheduler ::
  "Methcla_Time \<Rightarrow> double \<Rightarrow> 'a Environment \<Rightarrow> 'a Environment" where
  "processScheduler currentTime nextTime env =
     (if isEmpty (m_scheduler env) then env
      else
        (case top_item (m_scheduler env) of
           None \<Rightarrow> env
         | Some item \<Rightarrow>
             if time_le (m_time item) nextTime then
               (let env1 = processPacket_B (m_request item) (m_time item) currentTime env
                in if uncaught env1 \<noteq> None then env1
                   else processScheduler currentTime nextTime
                          (env1\<lparr>m_scheduler := pop (m_scheduler env1)\<rparr>))
             else env))"
  by pat_completeness auto

lemma m_scheduler_setNode [simp]: "m_scheduler (setNode env k n) = m_scheduler env"
  by (simp add: setNode_def)

lemma m_scheduler_remove_node [simp]: "m_scheduler (remove_node env k) = m_scheduler env"
  by (simp add: remove_node_def)

lemma m_scheduler_replyError [simp]: "m_scheduler (replyError env rid msg) = m_scheduler env"
  by (simp add: replyError_def)

lemma processMessage_B_try_nodes:
  "processMessage_B_try msg st ct env = Inr env' \<Longrightarrow> env' = env\<lparr>m_nodes := m_nodes env'\<rparr>"
  by (auto simp: processMessage_B_try_def synth_activate_def node_free_def node_set_def
      synth_map_input_def synth_map_output_def setNode_def remove_node_def
      split: if_splits option.splits sum.splits prod.splits)

lemma m_scheduler_processMessage_B_try:
  "processMessage_B_try msg st ct env = Inr env' \<Longrightarrow> m_scheduler env' = m_scheduler env"
  by (drule processMessage_B_try_nodes) (erule ssubst, simp)

lemma m_scheduler_processMessage_B [simp]:
  "m_scheduler (processMessage_B msg st ct env) = m_scheduler env"
  by (auto simp: processMessage_B_def Let_def split: sum.splits
      dest: m_scheduler_processMessage_B_try)

lemma m_scheduler_processBundle_B [simp]:
  "m_scheduler (processBundle_B ps st ct env) = m_scheduler env"
  "m_scheduler (processPacket_B p st ct env) = m_scheduler env"
  by (induction ps st ct env and p st ct env rule: processBundle_B_processPacket_B.induct)
    (simp_all add: Let_def)

lemma pq_top_mem: "pq_top q = Some x \<Longrightarrow> x \<in> set q"
  by (induction q arbitrary: x) (auto split: option.splits if_splits)

lemma length_pq_pop: "pq_top q = Some x \<Longrightarrow> length (pq_pop q) < length q"
  by (auto simp: pq_pop_def length_remove1 dest!: pq_top_mem) (cases q; simp)

termination processScheduler
proof (relation "measure (\<lambda>(currentTime, nextTime, env). length (m_queue (m_scheduler env)))")
  show "wf (measure (\<lambda>(currentTime, nextTime, env :: 'a Environment).
      length (m_queue (m_scheduler env))))"
    by simp
next
  fix currentTime :: Methcla_Time and nextTime :: double
    and env env1 :: "'a Environment" and item
  assume "top_item (m_scheduler env) = Some item"
    and "env1 = processPacket_B (m_request item) (m_time item) currentTime env"
  then show "((currentTime, nextTime, env1\<lparr>m_scheduler := pop (m_scheduler env1)\<rparr>),
      (currentTime, nextTime, env)) \<in>
      measure (\<lambda>(currentTime, nextTime, env). length (m_queue (m_scheduler env)))"
    by (simp add: pop_def top_item_def length_pq_pop)
qed

declare processScheduler.simps [simp del]

text \<open>
  The requests \<^verbatim>\<open>processRequests\<close> may dispatch at once: a message, and a bundle whose
  time is 1.
\<close>

fun immediate :: "Request \<Rightarrow> bool" where
  "immediate (Msg msg) = True"
| "immediate (Bundle t ps) = (t = 1)"

text \<open>The messages of a packet, in the order the dispatcher visits them.\<close>

fun messages :: "Packet \<Rightarrow> Message list" where
  "messages (Msg msg) = [msg]"
| "messages (Bundle t ps) = concat (map messages ps)"

text \<open>
  The order the specification asks of the scheduler, for the items of a queue that are
  due at the block end time: by time, and by the order of the pushes where the times
  are the same (the sort is stable).
\<close>

definition dispatch_order :: "double \<Rightarrow> ScheduleItem list \<Rightarrow> ScheduleItem list" where
  "dispatch_order nextTime q = sort_key m_time (filter (\<lambda>i. time_le (m_time i) nextTime) q)"

text \<open>
  The order of the calls of \<^verbatim>\<open>processMessage\<close> that the log of a block is compared
  with below. For a request from the request queue: phase A of its messages, then, if
  phase A has returned \<^verbatim>\<open>true\<close> (\<open>needsScheduling\<close>) and the request is dispatched at
  once, phase B of its messages at the current time; then the requests behind it, in
  the state the request has left. For a scheduled item: phase B of its messages at the
  time of the item.
\<close>

definition needsScheduling :: "Request \<Rightarrow> 'a Environment \<Rightarrow> bool" where
  "needsScheduling r env = fst (processPacket_A r env)"

fun request_calls :: "Methcla_Time \<Rightarrow> Request list \<Rightarrow> 'a Environment \<Rightarrow> Call list" where
  "request_calls ct [] env = []"
| "request_calls ct (r # rs) env =
     map PhaseA (messages r) @
     (if needsScheduling r env \<and> immediate r then map (\<lambda>m. PhaseB m ct ct) (messages r) else []) @
     request_calls ct rs (processRequest ct r env)"

definition item_calls :: "Methcla_Time \<Rightarrow> ScheduleItem \<Rightarrow> Call list" where
  "item_calls ct item = map (\<lambda>m. PhaseB m (m_time item) ct) (messages (m_request item))"

section \<open>The environment's life: construction and the block callback\<close>


definition kQueueSize :: nat where
  "kQueueSize = 8192"


text \<open>
  The two loops of \<^verbatim>\<open>Environment::process\<close> that connect the driver's buffers: an
  input bus gets the buffer and the current epoch, an output bus gets the buffer.
\<close>

definition connectBuses :: "'a AudioState \<Rightarrow> 'a list list \<Rightarrow> 'a list list \<Rightarrow> 'a AudioState" where
  "connectBuses audio inputs outputs =
     audio\<lparr>m_externalAudioInputs :=
             map (\<lambda>i. (m_externalAudioInputs audio ! i)\<lparr>data := inputs ! i, epoch := m_epoch audio\<rparr>)
               [0..<length (m_externalAudioInputs audio)],
           m_externalAudioOutputs :=
             map (\<lambda>i. (m_externalAudioOutputs audio ! i)\<lparr>data := outputs ! i\<rparr>)
               [0..<length (m_externalAudioOutputs audio)]\<rparr>"

text \<open>The loop that zeroes the outputs that have not been written to.\<close>

definition zeroOutputs :: "'a::zero AudioState \<Rightarrow> nat \<Rightarrow> 'a AudioState" where
  "zeroOutputs audio numFrames =
     audio\<lparr>m_externalAudioOutputs :=
       map (\<lambda>bus. if epoch bus \<noteq> m_epoch audio
                   then bus\<lparr>data := memcpy (data bus) (silence numFrames) numFrames\<rparr>
                   else bus)
         (m_externalAudioOutputs audio)\<rparr>"

text \<open>
  Modelled from the spec: \<^verbatim>\<open>Group::process\<close> and \<^verbatim>\<open>Synth::process\<close> of the node tree
  are missing. Running the tree is the sequence of the writes its synths make in this
  block (a read changes no bus): to an internal bus through an output connection, with
  \<^verbatim>\<open>AudioOutputConnection::write\<close>, or to an external output bus, which
  \<^verbatim>\<open>Environment::externalAudioOutput\<close> returns (\<^verbatim>\<open>m_externalAudioOutputs.at(id)\<close>, which
  throws out of range) and which is written by the same rule, the one the specification
  gives for every bus.
\<close>

datatype 'a TreeWrite =
    InternalWrite AudioOutputConnection "'a list"
  | ExternalWrite AudioBusId "'a list"

definition externalAudioOutput_write ::
  "AudioBusId \<Rightarrow> 'a::plus AudioState \<Rightarrow> nat \<Rightarrow> 'a list \<Rightarrow> exn + 'a AudioState" where
  "externalAudioOutput_write busId env numFrames src =
     (if length (m_externalAudioOutputs env) \<le> busId then Inl out_of_range
      else
        (let bus = m_externalAudioOutputs env ! busId
         in if length (data bus) < numFrames \<or> length src < numFrames then Inl buffer_overrun
            else if epoch bus = m_epoch env
              then Inr (env\<lparr>m_externalAudioOutputs := (m_externalAudioOutputs env)
                          [busId := bus\<lparr>data := accumulate (data bus) src numFrames\<rparr>]\<rparr>)
              else Inr (env\<lparr>m_externalAudioOutputs := (m_externalAudioOutputs env)
                          [busId := bus\<lparr>data := memcpy (data bus) src numFrames,
                                         epoch := m_epoch env\<rparr>]\<rparr>)))"

definition tree_write :: "'a::plus TreeWrite \<Rightarrow> 'a AudioState \<Rightarrow> nat \<Rightarrow> exn + 'a AudioState" where
  "tree_write w env numFrames =
     (case w of
        InternalWrite c src \<Rightarrow> AudioOutputConnection_write c env numFrames src
      | ExternalWrite busId src \<Rightarrow> externalAudioOutput_write busId env numFrames src)"

fun tree_writes :: "'a::plus TreeWrite list \<Rightarrow> 'a AudioState \<Rightarrow> nat \<Rightarrow> exn + 'a AudioState" where
  "tree_writes [] env numFrames = Inr env"
| "tree_writes (w # ws) env numFrames =
     (case tree_write w env numFrames of
        Inl e \<Rightarrow> Inl e
      | Inr env' \<Rightarrow> tree_writes ws env' numFrames)"

text \<open>
  \<^verbatim>\<open>Environment::process\<close>, for one block. \<open>requests\<close> are the requests waiting in the
  request queue when the block starts, \<open>nextTime\<close> is the end time of the block as the
  function computes it, \<open>tree\<close> the writes of the node tree in this block, and \<open>freed\<close>
  the bytes of realtime memory that the commands of the worker give back when
  \<^verbatim>\<open>m_worker.perform()\<close> runs them (how far the worker has come is not known to the
  audio thread).

  An exception that leaves \<^verbatim>\<open>processScheduler\<close>, or a write of the tree, leaves the
  callback, as does a call outside the contract of the callback (more frames than the
  block size, fewer or shorter buffers than the buses need).
\<close>

definition process ::
  "Methcla_Time \<Rightarrow> double \<Rightarrow> nat \<Rightarrow> 'a list list \<Rightarrow> 'a list list \<Rightarrow> Request list \<Rightarrow> nat \<Rightarrow>
   'a TreeWrite list \<Rightarrow> 'a::{plus,zero} Environment \<Rightarrow> exn + 'a Environment" where
  "process currentTime nextTime numFrames inputs outputs requests freed tree env =
     (if m_blockSize env < numFrames then Inl buffer_overrun
      else
        (let env1 = processRequests currentTime requests env;
             env2 = processScheduler currentTime nextTime env1
         in case uncaught env2 of
              Some e \<Rightarrow> Inl e
            | None \<Rightarrow>
                (let env3 = env2\<lparr>m_rtMem := m_rtMem env2 + freed\<rparr>;
                     audio = m_audio env3
                 in if length inputs < length (m_externalAudioInputs audio)
                       \<or> length outputs < length (m_externalAudioOutputs audio)
                       \<or> (\<exists>buf \<in> set outputs. length buf < numFrames)
                    then Inl buffer_overrun
                    else
                      (case tree_writes tree (connectBuses audio inputs outputs) numFrames of
                         Inl e \<Rightarrow> Inl e
                       | Inr audio' \<Rightarrow>
                           Inr (env3\<lparr>m_audio :=
                                  (zeroOutputs audio' numFrames)
                                    \<lparr>m_epoch := m_epoch audio' + 1\<rparr>\<rparr>)))))"

text \<open>A run of the engine: the blocks the driver asks for, one after the other.\<close>

record 'a Block =
  block_time :: Methcla_Time
  block_end :: double
  block_frames :: nat
  block_inputs :: "'a list list"
  block_outputs :: "'a list list"
  block_requests :: "Request list"
  block_freed :: nat
  block_tree :: "'a TreeWrite list"

fun run :: "'a Block list \<Rightarrow> 'a::{plus,zero} Environment \<Rightarrow> exn + 'a Environment" where
  "run [] env = Inr env"
| "run (b # bs) env =
     (case process (block_time b) (block_end b) (block_frames b) (block_inputs b)
             (block_outputs b) (block_requests b) (block_freed b) (block_tree b) env of
        Inl e \<Rightarrow> Inl e
      | Inr env' \<Rightarrow> run bs env')"



section \<open>An environment to run the model on\<close>

text \<open>
  A small engine at 48000 Hz with blocks of 64 frames: the root group, one synth
  definition, a scheduler with room for two requests, 4096 bytes of realtime memory,
  one internal bus, integer samples.
\<close>

definition example_env :: "int Environment" where
  "example_env =
     \<lparr>m_sampleRate = 48000, m_blockSize = 64, m_maxNumNodes = 16,
      m_nodes = [(0, GroupNode None [])],
      m_synthDefs = [(''sine'', \<lparr>name = ''sine'', numAudioInputs = 0, numAudioOutputs = 1,
                                numControlInputs = 1, numControlOutputs = 0\<rparr>)],
      m_scheduler = Scheduler 2, m_worker = [], m_rtMem = 4096,
      m_audio = \<lparr>m_epoch = 0, m_externalAudioInputs = [], m_externalAudioOutputs = [],
                 m_internalAudioBuses = [\<lparr>epoch = 0 - 1, data = replicate 64 0\<rparr>]\<rparr>,
      cerr = [], calls = [], uncaught = None\<rparr>"

section \<open>Properties of the bus write and read rules\<close>

lemma length_accumulate [simp]: "length (accumulate dst src n) = length dst"
proof -
  have "length (fold (\<lambda>i d. d[i := d ! i + src ! i]) is dst) = length dst" for "is"
    by (induction "is" arbitrary: dst) simp_all
  then show ?thesis by (simp add: accumulate_def)
qed

lemma nth_accumulate:
  assumes "n \<le> length dst" "i < length dst"
  shows "accumulate dst src n ! i = (if i < n then dst ! i + src ! i else dst ! i)"
  using assms
proof (induction n arbitrary: i)
  case 0
  then show ?case by (simp add: accumulate_def)
next
  case (Suc n)
  have step: "accumulate dst src (Suc n) =
      (accumulate dst src n)[n := accumulate dst src n ! n + src ! n]"
    by (simp add: accumulate_def)
  from Suc.prems have n: "n \<le> length dst" "n < length dst" by simp_all
  show ?case
  proof (cases "i = n")
    case True
    with Suc.IH [OF n(1) n(2)] n show ?thesis by (simp add: step)
  next
    case False
    with Suc.IH [OF n(1) Suc.prems(2)] show ?thesis by (simp add: step less_Suc_eq)
  qed
qed

lemma accumulate_eq:
  assumes "n \<le> length dst"
  shows "accumulate dst src n = map (\<lambda>i. dst ! i + src ! i) [0..<n] @ drop n dst"
proof (rule nth_equalityI)
  show "length (accumulate dst src n) = length (map (\<lambda>i. dst ! i + src ! i) [0..<n] @ drop n dst)"
    using assms by simp
next
  fix i assume "i < length (accumulate dst src n)"
  then have i: "i < length dst" by simp
  show "accumulate dst src n ! i = (map (\<lambda>i. dst ! i + src ! i) [0..<n] @ drop n dst) ! i"
    using assms i by (simp add: nth_accumulate nth_append)
qed

lemma audioBus_setAudioBus:
  "audioBus env b = Inr bus \<Longrightarrow> audioBus (setAudioBus env b bus') b = Inr bus'"
  by (auto simp: audioBus_def setAudioBus_def split: if_splits)

lemma audioBus_setAudioBus_other:
  "b' \<noteq> b \<Longrightarrow> audioBus (setAudioBus env b bus') b' = audioBus env b'"
  by (auto simp: audioBus_def setAudioBus_def)

lemma m_epoch_setAudioBus [simp]: "m_epoch (setAudioBus env b bus') = m_epoch env"
  by (simp add: setAudioBus_def)

lemma write_accumulates:
  assumes "m_busId c = Some b" "audioBus env b = Inr bus"
    and "n \<le> length (data bus)" "n \<le> length src" "epoch bus = m_epoch env"
  shows "AudioOutputConnection_write c env n src =
    Inr (setAudioBus env b
          (bus\<lparr>data := map (\<lambda>i. data bus ! i + src ! i) [0..<n] @ drop n (data bus)\<rparr>))"
  using assms by (simp add: AudioOutputConnection_write_def accumulate_eq)

lemma write_replaces:
  assumes "m_busId c = Some b" "audioBus env b = Inr bus"
    and "n \<le> length (data bus)" "n \<le> length src" "epoch bus \<noteq> m_epoch env"
  shows "AudioOutputConnection_write c env n src =
    Inr (setAudioBus env b
          (bus\<lparr>data := take n src @ drop n (data bus), epoch := m_epoch env\<rparr>))"
  using assms by (simp add: AudioOutputConnection_write_def memcpy_def)

lemma writes_accumulate:
  assumes "audioBus env b = Inr bus" "epoch bus = m_epoch env" "n \<le> length (data bus)"
    and "\<forall>(c, s) \<in> set ws. m_busId c = Some b \<and> n \<le> length s"
  shows "\<exists>env' bus'. writes ws env n = Inr env' \<and> audioBus env' b = Inr bus' \<and>
      m_epoch env' = m_epoch env \<and> epoch bus' = m_epoch env \<and>
      length (data bus') = length (data bus) \<and>
      (\<forall>i<n. data bus' ! i = foldl (+) (data bus ! i) (map (\<lambda>(c, s). s ! i) ws))"
  using assms
proof (induction ws arbitrary: env bus)
  case Nil
  then show ?case by simp
next
  case (Cons w ws)
  obtain c s where w: "w = (c, s)" by (cases w)
  from Cons.prems(4) w have c: "m_busId c = Some b" and s: "n \<le> length s" by simp_all
  let ?bus = "bus\<lparr>data := map (\<lambda>i. data bus ! i + s ! i) [0..<n] @ drop n (data bus)\<rparr>"
  let ?env = "setAudioBus env b ?bus"
  have wr: "AudioOutputConnection_write c env n s = Inr ?env"
    using write_accumulates [OF c Cons.prems(1) Cons.prems(3) s Cons.prems(2)] .
  have b1: "audioBus ?env b = Inr ?bus"
    using Cons.prems(1) by (rule audioBus_setAudioBus)
  have b2: "epoch ?bus = m_epoch ?env" using Cons.prems(2) by simp
  have b3: "n \<le> length (data ?bus)" using Cons.prems(3) by simp
  have b4: "\<forall>(c, s) \<in> set ws. m_busId c = Some b \<and> n \<le> length s"
    using Cons.prems(4) by simp
  from Cons.IH [OF b1 b2 b3 b4] obtain env' bus' where
    r: "writes ws ?env n = Inr env'" "audioBus env' b = Inr bus'"
       "m_epoch env' = m_epoch ?env" "epoch bus' = m_epoch ?env"
       "length (data bus') = length (data ?bus)"
       "\<forall>i<n. data bus' ! i = foldl (+) (data ?bus ! i) (map (\<lambda>(c, s). s ! i) ws)"
    by blast
  have "\<forall>i<n. data bus' ! i = foldl (+) (data bus ! i) (map (\<lambda>(c, s). s ! i) (w # ws))"
    using r(6) Cons.prems(3) by (simp add: w nth_append)
  with r wr Cons.prems(3) show ?case by (simp add: w)
qed

lemma read_current:
  assumes "m_busId r = Some b" "audioBus env b = Inr bus"
    and "n \<le> length (data bus)" "epoch bus = m_epoch env"
  shows "AudioInputConnection_read r env n = Inr (take n (data bus))"
  using assms by (simp add: AudioInputConnection_read_def memcpy_def silence_def)

lemma read_stale:
  assumes "m_busId r = Some b" "audioBus env b = Inr bus"
    and "n \<le> length (data bus)" "epoch bus \<noteq> m_epoch env"
  shows "AudioInputConnection_read r env n = Inr (silence n)"
  using assms by (simp add: AudioInputConnection_read_def)

text \<open>
  Claim C1. A write through an output connection mapped to a bus adds the source to the
  bus data, sample by sample, when the epoch of the bus is the epoch of the environment;
  otherwise it copies the source into the bus data and sets the epoch of the bus to the
  epoch of the environment. So when the bus is stale at the start of a block and N
  outputs write \<open>src, s\<^sub>2, \<dots>, s\<^sub>N\<close> to it, a read of the bus in the same block
  yields, at each of the \<open>numFrames\<close> samples, the sum \<open>src + s\<^sub>2 + \<dots> + s\<^sub>N\<close>,
  added in the order of the writes.
\<close>

theorem bus_write_rule_and_mix_law:
  fixes env :: "'a::{plus,zero} AudioState"
  assumes c: "m_busId c = Some b" and r: "m_busId r = Some b"
    and bus: "audioBus env b = Inr bus"
    and n: "n \<le> length (data bus)" "n \<le> length src"
    and ws: "\<forall>(c', s) \<in> set ws. m_busId c' = Some b \<and> n \<le> length s"
  shows "(epoch bus = m_epoch env \<longrightarrow>
            AudioOutputConnection_write c env n src =
              Inr (setAudioBus env b
                (bus\<lparr>data := map (\<lambda>i. data bus ! i + src ! i) [0..<n] @ drop n (data bus)\<rparr>)))
       \<and> (epoch bus \<noteq> m_epoch env \<longrightarrow>
            AudioOutputConnection_write c env n src =
              Inr (setAudioBus env b
                (bus\<lparr>data := take n src @ drop n (data bus), epoch := m_epoch env\<rparr>)))
       \<and> (epoch bus \<noteq> m_epoch env \<longrightarrow>
            (\<exists>env'. writes ((c, src) # ws) env n = Inr env' \<and> m_epoch env' = m_epoch env \<and>
               AudioInputConnection_read r env' n =
                 Inr (map (\<lambda>i. foldl (+) (src ! i) (map (\<lambda>(c', s). s ! i) ws)) [0..<n])))"
proof (intro conjI impI)
  assume "epoch bus = m_epoch env"
  then show "AudioOutputConnection_write c env n src =
      Inr (setAudioBus env b
        (bus\<lparr>data := map (\<lambda>i. data bus ! i + src ! i) [0..<n] @ drop n (data bus)\<rparr>))"
    using write_accumulates [OF c bus n] by simp
next
  assume "epoch bus \<noteq> m_epoch env"
  then show "AudioOutputConnection_write c env n src =
      Inr (setAudioBus env b
        (bus\<lparr>data := take n src @ drop n (data bus), epoch := m_epoch env\<rparr>))"
    using write_replaces [OF c bus n] by simp
next
  assume stale: "epoch bus \<noteq> m_epoch env"
  let ?bus = "bus\<lparr>data := take n src @ drop n (data bus), epoch := m_epoch env\<rparr>"
  let ?env = "setAudioBus env b ?bus"
  have wr: "AudioOutputConnection_write c env n src = Inr ?env"
    using write_replaces [OF c bus n stale] .
  have b1: "audioBus ?env b = Inr ?bus" using bus by (rule audioBus_setAudioBus)
  have b2: "epoch ?bus = m_epoch ?env" by simp
  have b3: "n \<le> length (data ?bus)" using n by simp
  from writes_accumulate [OF b1 b2 b3 ws] obtain env' bus' where
    w: "writes ws ?env n = Inr env'" "audioBus env' b = Inr bus'"
       "m_epoch env' = m_epoch ?env" "epoch bus' = m_epoch ?env"
       "length (data bus') = length (data ?bus)"
       "\<forall>i<n. data bus' ! i = foldl (+) (data ?bus ! i) (map (\<lambda>(c, s). s ! i) ws)"
    by blast
  have len: "n \<le> length (data bus')" using w(5) n by simp
  have cur: "epoch bus' = m_epoch env'" using w(3,4) by simp
  have "take n (data bus') = map (\<lambda>i. foldl (+) (src ! i) (map (\<lambda>(c', s). s ! i) ws)) [0..<n]"
  proof (rule nth_equalityI)
    show "length (take n (data bus')) =
        length (map (\<lambda>i. foldl (+) (src ! i) (map (\<lambda>(c', s). s ! i) ws)) [0..<n])"
      using len by simp
  next
    fix i assume "i < length (take n (data bus'))"
    then have i: "i < n" by simp
    with w(6) n show "take n (data bus') ! i =
        map (\<lambda>i. foldl (+) (src ! i) (map (\<lambda>(c', s). s ! i) ws)) [0..<n] ! i"
      by (simp add: nth_append)
  qed
  with read_current [OF r w(2) len cur] w(1,3) wr
  show "\<exists>env'. writes ((c, src) # ws) env n = Inr env' \<and> m_epoch env' = m_epoch env \<and>
      AudioInputConnection_read r env' n =
        Inr (map (\<lambda>i. foldl (+) (src ! i) (map (\<lambda>(c', s). s ! i) ws)) [0..<n])"
    by simp
qed

theorem bus_write_rule_and_mix_law_witness:
  "\<exists>env'. writes [(\<lparr>m_index = 0, m_busId = Some 0, m_type = kOut\<rparr>, [1, 2 :: int]),
                    (\<lparr>m_index = 0, m_busId = Some 0, m_type = kOut\<rparr>, [10, 20])]
             \<lparr>m_epoch = 5, m_externalAudioInputs = [], m_externalAudioOutputs = [],
               m_internalAudioBuses = [\<lparr>epoch = 4, data = [9, 9]\<rparr>]\<rparr> 2 = Inr env' \<and>
           AudioInputConnection_read \<lparr>m_index = 0, m_busId = Some 0, m_type = kIn\<rparr> env' 2 =
             Inr [11, 22]"
proof -
  let ?c = "\<lparr>m_index = 0, m_busId = Some 0, m_type = kOut\<rparr>"
  let ?r = "\<lparr>m_index = 0, m_busId = Some 0, m_type = kIn\<rparr>"
  let ?bus = "\<lparr>epoch = 4, data = [9, 9 :: int]\<rparr>"
  let ?env = "\<lparr>m_epoch = 5, m_externalAudioInputs = [], m_externalAudioOutputs = [],
               m_internalAudioBuses = [?bus]\<rparr>"
  have h: "m_busId ?c = Some 0" "m_busId ?r = Some 0" "audioBus ?env 0 = Inr ?bus"
    "2 \<le> length (data ?bus)" "2 \<le> length [1, 2 :: int]"
    "\<forall>(c', s) \<in> set [(?c, [10, 20 :: int])]. m_busId c' = Some 0 \<and> 2 \<le> length s"
    by (simp_all add: audioBus_def)
  have u: "[0..<2] = [0, Suc 0]" by (simp add: upt_rec)
  have e: "epoch ?bus \<noteq> m_epoch ?env" by simp
  from bus_write_rule_and_mix_law [OF h] e obtain env' where
    w: "writes [(?c, [1, 2]), (?c, [10, 20])] ?env 2 = Inr env'"
    and rd: "AudioInputConnection_read ?r env' 2 =
      Inr (map (\<lambda>i. foldl (+) ([1, 2] ! i) (map (\<lambda>(c', s). s ! i) [(?c, [10, 20])])) [0..<2])"
    by blast
  have "map (\<lambda>i. foldl (+) ([1, 2 :: int] ! i) (map (\<lambda>(c', s). s ! i) [(?c, [10, 20])])) [0..<2]
      = [11, 22]"
    by (simp add: u)
  with w rd show ?thesis by auto
qed

text \<open>
  Claim C5 says that a \<open>kReplaceOut\<close> connection erases what was written to the bus
  earlier in the block. \<^verbatim>\<open>AudioOutputConnection::write\<close> never looks at the type of
  the connection: after an \<open>kOut\<close> write of \<open>[1, 2]\<close>, a \<open>kReplaceOut\<close> write of
  \<open>[10, 20]\<close> to the same bus in the same block leaves \<open>[11, 22]\<close> on the bus, and that
  is what a reader sees.
\<close>

theorem replace_out_accumulates:
  "writes [(\<lparr>m_index = 0, m_busId = Some 0, m_type = kOut\<rparr>, [1, 2 :: int]),
           (\<lparr>m_index = 1, m_busId = Some 0, m_type = kReplaceOut\<rparr>, [10, 20])]
     \<lparr>m_epoch = 5, m_externalAudioInputs = [], m_externalAudioOutputs = [],
       m_internalAudioBuses = [\<lparr>epoch = 4, data = [0, 0]\<rparr>]\<rparr> 2
   = Inr \<lparr>m_epoch = 5, m_externalAudioInputs = [], m_externalAudioOutputs = [],
          m_internalAudioBuses = [\<lparr>epoch = 5, data = [11, 22]\<rparr>]\<rparr>
   \<and> AudioInputConnection_read \<lparr>m_index = 0, m_busId = Some 0, m_type = kIn\<rparr>
       \<lparr>m_epoch = 5, m_externalAudioInputs = [], m_externalAudioOutputs = [],
         m_internalAudioBuses = [\<lparr>epoch = 5, data = [11, 22 :: int]\<rparr>]\<rparr> 2
   = Inr [11, 22]"
  by (simp add: AudioOutputConnection_write_def AudioInputConnection_read_def audioBus_def
      setAudioBus_def memcpy_def accumulate_def silence_def upt_rec)

text \<open>
  Claim C6 says that an \<open>kInFeedback\<close> input reads what was written to its bus in the
  previous block. \<^verbatim>\<open>AudioInputConnection::read\<close> never looks at the type of the
  connection: a bus whose epoch is one behind the epoch of the environment, holding
  the \<open>[7, 8]\<close> of the previous block, reads as silence.
\<close>

theorem in_feedback_reads_silence:
  "AudioInputConnection_read \<lparr>m_index = 0, m_busId = Some 0, m_type = kInFeedback\<rparr>
     \<lparr>m_epoch = 5, m_externalAudioInputs = [], m_externalAudioOutputs = [],
       m_internalAudioBuses = [\<lparr>epoch = 5 - 1, data = [7, 8 :: int]\<rparr>]\<rparr> 2
   = Inr [0, 0]"
  by (simp add: AudioInputConnection_read_def audioBus_def silence_def numeral_2_eq_2)

section \<open>Properties of the scheduler\<close>

lemma pq_top_None [simp]: "pq_top q = None \<longleftrightarrow> q = []"
  by (cases q) (auto split: option.splits)

lemma pq_top_split:
  "pq_top q = Some x \<Longrightarrow>
     \<exists>ys zs. q = ys @ x # zs \<and> (\<forall>y \<in> set ys. m_time x < m_time y) \<and>
       (\<forall>z \<in> set zs. m_time x \<le> m_time z)"
proof (induction q arbitrary: x)
  case Nil
  then show ?case by simp
next
  case (Cons a q)
  show ?case
  proof (cases "pq_top q")
    case None
    with Cons.prems have "q = []" "x = a" by simp_all
    then show ?thesis by (intro exI [of _ "[]"]) simp
  next
    case (Some y)
    from Cons.IH [OF Some] obtain ys zs where
      q: "q = ys @ y # zs" "\<forall>u \<in> set ys. m_time y < m_time u" "\<forall>z \<in> set zs. m_time y \<le> m_time z"
      by blast
    show ?thesis
    proof (cases "m_time y < m_time a")
      case True
      with Cons.prems Some have "x = y" by simp
      with q True show ?thesis
        by (intro exI [of _ "a # ys"] exI [of _ zs]) simp
    next
      case False
      with Cons.prems Some have x: "x = a" by simp
      from False q have "\<forall>z \<in> set q. m_time a \<le> m_time z"
        by (auto simp: not_less intro: order_trans less_imp_le)
      with x show ?thesis
        by (intro exI [of _ "[]"] exI [of _ q]) simp
    qed
  qed
qed

lemma pq_top_append:
  assumes "\<forall>y \<in> set ys. m_time x < m_time y" "\<forall>z \<in> set zs. m_time x \<le> m_time z"
  shows "pq_top (ys @ x # zs) = Some x"
  using assms
proof (induction ys)
  case Nil
  show ?case
  proof (cases "pq_top zs")
    case None
    then show ?thesis by simp
  next
    case (Some y)
    then have "y \<in> set zs" by (rule pq_top_mem)
    with Nil Some show ?thesis by (auto simp: not_less)
  qed
next
  case (Cons a ys)
  then show ?case by simp
qed

lemma pq_top_least: "pq_top q = Some x \<Longrightarrow> y \<in> set q \<Longrightarrow> m_time x \<le> m_time y"
  by (drule pq_top_split) (fastforce simp: less_le)

lemma sort_key_pq_top:
  "pq_top q = Some x \<Longrightarrow> sort_key m_time q = x # sort_key m_time (remove1 x q)"
proof (induction q arbitrary: x)
  case Nil
  then show ?case by simp
next
  case (Cons a q)
  show ?case
  proof (cases "pq_top q")
    case None
    with Cons.prems show ?thesis by simp
  next
    case (Some y)
    note IH = Cons.IH [OF Some]
    show ?thesis
    proof (cases "m_time y < m_time a")
      case True
      with Cons.prems Some have x: "x = y" by simp
      from True have "y \<noteq> a" by auto
      with True IH x show ?thesis by simp
    next
      case False
      with Cons.prems Some have x: "x = a" by simp
      from False IH x show ?thesis by (simp add: not_less)
    qed
  qed
qed

lemma time_le_mono: "time_le t nt \<Longrightarrow> s \<le> t \<Longrightarrow> time_le s nt"
  by (cases nt) simp_all

lemma filter_remove1_in: "P x \<Longrightarrow> filter P (remove1 x q) = remove1 x (filter P q)"
  by (induction q) auto

lemma filter_remove1_out: "\<not> P x \<Longrightarrow> filter P (remove1 x q) = filter P q"
  by (induction q) auto

lemma pq_top_filter:
  assumes "pq_top q = Some x" "time_le (m_time x) nt"
  shows "pq_top (filter (\<lambda>i. time_le (m_time i) nt) q) = Some x"
proof -
  from pq_top_split [OF assms(1)] obtain ys zs where
    q: "q = ys @ x # zs" "\<forall>y \<in> set ys. m_time x < m_time y" "\<forall>z \<in> set zs. m_time x \<le> m_time z"
    by blast
  have "filter (\<lambda>i. time_le (m_time i) nt) q =
      filter (\<lambda>i. time_le (m_time i) nt) ys @ x # filter (\<lambda>i. time_le (m_time i) nt) zs"
    using q(1) assms(2) by simp
  moreover have "pq_top (filter (\<lambda>i. time_le (m_time i) nt) ys @ x # filter (\<lambda>i. time_le (m_time i) nt) zs) = Some x"
    using q(2,3) by (intro pq_top_append) auto
  ultimately show ?thesis by simp
qed

lemma due_pop:
  assumes "pq_top q = Some x" "time_le (m_time x) nt"
  shows "sort_key m_time (filter (\<lambda>i. time_le (m_time i) nt) q) =
           x # sort_key m_time (filter (\<lambda>i. time_le (m_time i) nt) (pq_pop q))"
    and "filter (\<lambda>i. \<not> time_le (m_time i) nt) (pq_pop q) = filter (\<lambda>i. \<not> time_le (m_time i) nt) q"
proof -
  show "sort_key m_time (filter (\<lambda>i. time_le (m_time i) nt) q) =
           x # sort_key m_time (filter (\<lambda>i. time_le (m_time i) nt) (pq_pop q))"
    using sort_key_pq_top [OF pq_top_filter [OF assms]] assms
    by (simp add: pq_pop_def filter_remove1_in)
  show "filter (\<lambda>i. \<not> time_le (m_time i) nt) (pq_pop q) = filter (\<lambda>i. \<not> time_le (m_time i) nt) q"
    using assms by (simp add: pq_pop_def filter_remove1_out)
qed

lemma not_due:
  assumes "pq_top q = Some x" "\<not> time_le (m_time x) nt"
  shows "filter (\<lambda>i. time_le (m_time i) nt) q = []" "filter (\<lambda>i. \<not> time_le (m_time i) nt) q = q"
proof -
  have "\<not> time_le (m_time y) nt" if "y \<in> set q" for y
    using pq_top_least [OF assms(1) that] assms(2) by (auto dest: time_le_mono)
  then show "filter (\<lambda>i. time_le (m_time i) nt) q = []" "filter (\<lambda>i. \<not> time_le (m_time i) nt) q = q"
    by (simp_all add: filter_empty_conv filter_id_conv)
qed

lemma lookup_m_scheduler_update [simp]: "lookup (env\<lparr>m_scheduler := s\<rparr>) = lookup env"
  by (simp add: lookup_def fun_eq_iff)

lemma contains_m_scheduler_update [simp]: "contains (env\<lparr>m_scheduler := s\<rparr>) = contains env"
  by (simp add: contains_def fun_eq_iff)

lemma lookupSynth_m_scheduler_update [simp]:
  "lookupSynth (env\<lparr>m_scheduler := s\<rparr>) = lookupSynth env"
  by (simp add: lookupSynth_def fun_eq_iff)

lemma setNode_m_scheduler_update [simp]:
  "setNode (env\<lparr>m_scheduler := s\<rparr>) k n = (setNode env k n)\<lparr>m_scheduler := s\<rparr>"
  by (simp add: setNode_def)

lemma remove_node_m_scheduler_update [simp]:
  "remove_node (env\<lparr>m_scheduler := s\<rparr>) k = (remove_node env k)\<lparr>m_scheduler := s\<rparr>"
  by (simp add: remove_node_def)

lemma replyError_m_scheduler_update [simp]:
  "replyError (env\<lparr>m_scheduler := s\<rparr>) rid msg = (replyError env rid msg)\<lparr>m_scheduler := s\<rparr>"
  by (simp add: replyError_def)

lemma uncaught_setNode [simp]: "uncaught (setNode env k n) = uncaught env"
  by (simp add: setNode_def)

lemma uncaught_remove_node [simp]: "uncaught (remove_node env k) = uncaught env"
  by (simp add: remove_node_def)

lemma synth_activate_m_scheduler_update:
  "synth_activate a st ct (env\<lparr>m_scheduler := s\<rparr>) =
     map_sum id (\<lambda>e. e\<lparr>m_scheduler := s\<rparr>) (synth_activate a st ct env)"
  by (simp add: synth_activate_def split: option.splits sum.splits prod.splits)

lemma node_free_m_scheduler_update:
  "node_free a (env\<lparr>m_scheduler := s\<rparr>) =
     map_sum id (\<lambda>e. e\<lparr>m_scheduler := s\<rparr>) (node_free a env)"
  by (simp add: node_free_def split: option.splits)

lemma node_set_m_scheduler_update:
  "node_set a (env\<lparr>m_scheduler := s\<rparr>) =
     map_sum id (\<lambda>e. e\<lparr>m_scheduler := s\<rparr>) (node_set a env)"
  by (simp add: node_set_def split: option.splits sum.splits prod.splits)

lemma synth_map_input_m_scheduler_update:
  "synth_map_input a (env\<lparr>m_scheduler := s\<rparr>) =
     map_sum id (\<lambda>e. e\<lparr>m_scheduler := s\<rparr>) (synth_map_input a env)"
  by (simp add: synth_map_input_def split: option.splits sum.splits prod.splits)

lemma synth_map_output_m_scheduler_update:
  "synth_map_output a (env\<lparr>m_scheduler := s\<rparr>) =
     map_sum id (\<lambda>e. e\<lparr>m_scheduler := s\<rparr>) (synth_map_output a env)"
  by (simp add: synth_map_output_def split: option.splits sum.splits prod.splits)

lemma processMessage_B_try_m_scheduler_update:
  "processMessage_B_try msg st ct (env\<lparr>m_scheduler := s\<rparr>) =
     map_sum id (\<lambda>e. e\<lparr>m_scheduler := s\<rparr>) (processMessage_B_try msg st ct env)"
  by (simp add: processMessage_B_try_def synth_activate_m_scheduler_update
      node_free_m_scheduler_update node_set_m_scheduler_update
      synth_map_input_m_scheduler_update synth_map_output_m_scheduler_update)

lemma processMessage_B_m_scheduler_update [simp]:
  "processMessage_B msg st ct (env\<lparr>m_scheduler := s\<rparr>) =
     (processMessage_B msg st ct env)\<lparr>m_scheduler := s\<rparr>"
proof -
  let ?c = "calls env @ [PhaseB msg st ct]"
  have swap: "env\<lparr>m_scheduler := s\<rparr>\<lparr>calls := calls (env\<lparr>m_scheduler := s\<rparr>) @ [PhaseB msg st ct]\<rparr>
      = env\<lparr>calls := ?c\<rparr>\<lparr>m_scheduler := s\<rparr>"
    by simp
  show ?thesis
    unfolding processMessage_B_def Let_def swap processMessage_B_try_m_scheduler_update
    by (cases "processMessage_B_try msg st ct (env\<lparr>calls := ?c\<rparr>)") simp_all
qed

lemma processBundle_B_m_scheduler_update [simp]:
  "processBundle_B ps st ct (env\<lparr>m_scheduler := s\<rparr>) =
     (processBundle_B ps st ct env)\<lparr>m_scheduler := s\<rparr>"
  "processPacket_B p st ct (env\<lparr>m_scheduler := s\<rparr>) =
     (processPacket_B p st ct env)\<lparr>m_scheduler := s\<rparr>"
  by (induction ps st ct env and p st ct env rule: processBundle_B_processPacket_B.induct)
    (simp_all add: Let_def)

text \<open>The dispatch of the items of a list, in the order of the list.\<close>

lemma fold_dispatch_m_scheduler_update:
  "fold (\<lambda>item e. processPacket_B (m_request item) (m_time item) ct e) items
       (env\<lparr>m_scheduler := s\<rparr>) =
     (fold (\<lambda>item e. processPacket_B (m_request item) (m_time item) ct e) items env)
       \<lparr>m_scheduler := s\<rparr>"
  by (induction items arbitrary: env) simp_all

lemma m_scheduler_fold_dispatch [simp]:
  "m_scheduler (fold (\<lambda>item e. processPacket_B (m_request item) (m_time item) ct e) items env)
     = m_scheduler env"
  by (induction items arbitrary: env) simp_all

text \<open>
  When no exception leaves the loop, it has dispatched the items that are due, in the
  order of their times and of their pushes, and has left the others in the queue.
\<close>

lemma processScheduler_eq:
  "uncaught (processScheduler ct nt env) = None \<Longrightarrow>
   processScheduler ct nt env =
     (fold (\<lambda>item e. processPacket_B (m_request item) (m_time item) ct e)
        (sort_key m_time (filter (\<lambda>i. time_le (m_time i) nt) (m_queue (m_scheduler env)))) env)
     \<lparr>m_scheduler := (m_scheduler env)
        \<lparr>m_queue := filter (\<lambda>i. \<not> time_le (m_time i) nt) (m_queue (m_scheduler env))\<rparr>\<rparr>"
proof (induction ct nt env rule: processScheduler.induct)
  case (1 ct nt env)
  let ?q = "m_queue (m_scheduler env)"
  show ?case
  proof (cases "pq_top ?q")
    case None
    then have "?q = []" by simp
    then show ?thesis
      by (subst processScheduler.simps) (simp add: isEmpty_def)
  next
    case (Some x)
    then have ne: "\<not> isEmpty (m_scheduler env)" by (auto simp: isEmpty_def)
    have top: "top_item (m_scheduler env) = Some x" using Some by (simp add: top_item_def)
    show ?thesis
    proof (cases "time_le (m_time x) nt")
      case False
      with ne top not_due [OF Some False] show ?thesis
        by (subst processScheduler.simps) simp
    next
      case True
      let ?env1 = "processPacket_B (m_request x) (m_time x) ct env"
      let ?env2 = "?env1\<lparr>m_scheduler := pop (m_scheduler ?env1)\<rparr>"
      have u: "\<not> uncaught ?env1 \<noteq> None"
      proof
        assume a: "uncaught ?env1 \<noteq> None"
        then have "processScheduler ct nt env = ?env1"
          using ne top True by (subst processScheduler.simps) (simp add: Let_def)
        with "1.prems" a show False by simp
      qed
      have q2: "m_queue (m_scheduler ?env2) = pq_pop ?q" by (simp add: pop_def)
      have step: "processScheduler ct nt env = processScheduler ct nt ?env2"
        using ne top True u by (subst processScheduler.simps) (simp add: Let_def)
      from "1.prems" step have "uncaught (processScheduler ct nt ?env2) = None" by simp
      note IH = "1.IH" [OF ne top True refl u this]
      show ?thesis
        unfolding step IH q2 due_pop [OF Some True]
        by (simp add: fold_dispatch_m_scheduler_update pop_def)
    qed
  qed
qed

section \<open>The log of calls\<close>

lemma calls_replyError [simp]: "calls (replyError env rid msg) = calls env"
  by (simp add: replyError_def)

lemma calls_processMessage_B [simp]:
  "calls (processMessage_B msg st ct env) = calls env @ [PhaseB msg st ct]"
proof (cases "processMessage_B_try msg st ct (env\<lparr>calls := calls env @ [PhaseB msg st ct]\<rparr>)")
  case (Inl e)
  then show ?thesis by (simp add: processMessage_B_def Let_def)
next
  case (Inr env')
  from arg_cong [OF processMessage_B_try_nodes [OF Inr], of calls]
  have "calls env' = calls env @ [PhaseB msg st ct]" by simp
  with Inr show ?thesis by (simp add: processMessage_B_def Let_def)
qed

text \<open>An exception on its way up stays one: the dispatcher has no handler that ends it.\<close>

lemma uncaught_replyError_mono:
  "uncaught env \<noteq> None \<Longrightarrow> uncaught (replyError env rid msg) \<noteq> None"
  by (simp add: replyError_def)

lemma uncaught_processMessage_B_mono:
  assumes "uncaught env \<noteq> None"
  shows "uncaught (processMessage_B msg st ct env) \<noteq> None"
proof (cases "processMessage_B_try msg st ct (env\<lparr>calls := calls env @ [PhaseB msg st ct]\<rparr>)")
  case (Inl e)
  with assms show ?thesis
    by (simp add: processMessage_B_def Let_def uncaught_replyError_mono)
next
  case (Inr env')
  from arg_cong [OF processMessage_B_try_nodes [OF Inr], of uncaught]
  have "uncaught env' = uncaught env" by simp
  with Inr assms show ?thesis by (simp add: processMessage_B_def Let_def)
qed

lemma uncaught_processBundle_B_mono:
  "uncaught env \<noteq> None \<Longrightarrow> uncaught (processBundle_B ps st ct env) \<noteq> None"
  "uncaught env \<noteq> None \<Longrightarrow> uncaught (processPacket_B p st ct env) \<noteq> None"
  by (induction ps st ct env and p st ct env rule: processBundle_B_processPacket_B.induct)
    (simp_all add: Let_def uncaught_processMessage_B_mono)

lemma uncaught_fold_dispatch_mono:
  "uncaught env \<noteq> None \<Longrightarrow>
     uncaught (fold (\<lambda>item e. processPacket_B (m_request item) (m_time item) ct e) items env)
       \<noteq> None"
proof (induction items arbitrary: env)
  case Nil
  then show ?case by simp
next
  case (Cons item items)
  from uncaught_processBundle_B_mono(2) [OF Cons.prems]
  have "uncaught (processPacket_B (m_request item) (m_time item) ct env) \<noteq> None" .
  from Cons.IH [OF this] show ?case by simp
qed

text \<open>The calls of a dispatch that no exception leaves.\<close>

lemma calls_processBundle_B:
  "uncaught (processBundle_B ps st ct env) = None \<Longrightarrow>
     calls (processBundle_B ps st ct env) =
       calls env @ map (\<lambda>m. PhaseB m st ct) (concat (map messages ps))"
  "uncaught (processPacket_B p st ct env) = None \<Longrightarrow>
     calls (processPacket_B p st ct env) = calls env @ map (\<lambda>m. PhaseB m st ct) (messages p)"
proof (induction ps st ct env and p st ct env rule: processBundle_B_processPacket_B.induct)
  case (2 p ps st ct env)
  let ?env1 = "processPacket_B p st ct env"
  have u: "\<not> uncaught ?env1 \<noteq> None"
    using "2.prems" by (cases "uncaught ?env1") (simp_all add: Let_def)
  then have e: "processBundle_B (p # ps) st ct env = processBundle_B ps st ct ?env1"
    by (simp add: Let_def)
  from u have "calls ?env1 = calls env @ map (\<lambda>m. PhaseB m st ct) (messages p)"
    by (intro "2.IH"(1)) simp
  moreover from "2.prems" e
  have "calls (processBundle_B ps st ct ?env1) =
      calls ?env1 @ map (\<lambda>m. PhaseB m st ct) (concat (map messages ps))"
    by (intro "2.IH"(2) [OF refl u]) simp
  ultimately show ?case unfolding e by simp
qed simp_all

lemma calls_fold_dispatch:
  "uncaught (fold (\<lambda>item e. processPacket_B (m_request item) (m_time item) ct e) items env) = None
   \<Longrightarrow>
   calls (fold (\<lambda>item e. processPacket_B (m_request item) (m_time item) ct e) items env) =
     calls env @ concat (map (item_calls ct) items)"
proof (induction items arbitrary: env)
  case Nil
  then show ?case by simp
next
  case (Cons item items)
  let ?env1 = "processPacket_B (m_request item) (m_time item) ct env"
  have u: "uncaught ?env1 = None"
  proof (rule ccontr)
    assume "uncaught ?env1 \<noteq> None"
    from uncaught_fold_dispatch_mono [OF this, of ct items] Cons.prems show False by simp
  qed
  from calls_processBundle_B(2) [OF u] Cons.IH [of ?env1] Cons.prems
  show ?case by (simp add: item_calls_def)
qed

lemma addToGroup_nodes: "addToGroup env target k a = env\<lparr>m_nodes := m_nodes (addToGroup env target k a)\<rparr>"
  by (simp add: addToGroup_def setNode_def split: option.splits Node.splits)

lemma insert_node_nodes: "insert_node env k n = Inr env' \<Longrightarrow> env' = env\<lparr>m_nodes := m_nodes env'\<rparr>"
  by (auto simp: insert_node_def split: if_splits)

lemma group_new_nodes: "fst (group_new a env) = env\<lparr>m_nodes := m_nodes (fst (group_new a env))\<rparr>"
proof -
  have "\<exists>ns. fst (group_new a env) = env\<lparr>m_nodes := ns\<rparr>"
  proof -
    have e: "\<exists>ns. env = env\<lparr>m_nodes := ns\<rparr>" by (rule exI [of _ "m_nodes env"]) simp
    have a: "\<exists>ns. addToGroup env target k act = env\<lparr>m_nodes := ns\<rparr>" for target k act
      using addToGroup_nodes [of env target k act] by (rule exI)
    have i: "\<exists>ns. env2 = env\<lparr>m_nodes := ns\<rparr>"
      if "insert_node (addToGroup env target k act) k' n = Inr env2" for target k act k' n env2
    proof -
      from a obtain ns where ns: "addToGroup env target k act = env\<lparr>m_nodes := ns\<rparr>" by blast
      from insert_node_nodes [OF that] ns show ?thesis
        by (intro exI [of _ "m_nodes env2"]) simp
    qed
    show ?thesis
      using e a i
      by (auto simp: group_new_def Group_construct_def split: option.splits sum.splits prod.splits)
  qed
  then obtain ns where "fst (group_new a env) = env\<lparr>m_nodes := ns\<rparr>" ..
  then show ?thesis by simp
qed

lemma synth_new_nodes: "fst (synth_new a env) = env\<lparr>m_nodes := m_nodes (fst (synth_new a env))\<rparr>"
proof -
  have "\<exists>ns. fst (synth_new a env) = env\<lparr>m_nodes := ns\<rparr>"
  proof -
    have e: "\<exists>ns. env = env\<lparr>m_nodes := ns\<rparr>" by (rule exI [of _ "m_nodes env"]) simp
    have a: "\<exists>ns. addToGroup env target k act = env\<lparr>m_nodes := ns\<rparr>" for target k act
      using addToGroup_nodes [of env target k act] by (rule exI)
    have i: "\<exists>ns. env2 = env\<lparr>m_nodes := ns\<rparr>"
      if "insert_node (addToGroup env target k act) k' n = Inr env2" for target k act k' n env2
    proof -
      from a obtain ns where ns: "addToGroup env target k act = env\<lparr>m_nodes := ns\<rparr>" by blast
      from insert_node_nodes [OF that] ns show ?thesis
        by (intro exI [of _ "m_nodes env2"]) simp
    qed
    show ?thesis
      using e a i
      by (auto simp: synth_new_def Synth_construct_def split: option.splits sum.splits prod.splits)
  qed
  then obtain ns where "fst (synth_new a env) = env\<lparr>m_nodes := ns\<rparr>" ..
  then show ?thesis by simp
qed

lemma processMessage_A_try_nodes:
  "fst (processMessage_A_try msg env) = env\<lparr>m_nodes := m_nodes (fst (processMessage_A_try msg env))\<rparr>"
  using group_new_nodes [of "args msg" env] synth_new_nodes [of "args msg" env]
  by (simp add: processMessage_A_try_def)

lemma calls_processMessage_A [simp]:
  "calls (snd (processMessage_A msg env)) = calls env @ [PhaseA msg]"
proof -
  let ?env0 = "env\<lparr>calls := calls env @ [PhaseA msg]\<rparr>"
  obtain env' r where t: "processMessage_A_try msg ?env0 = (env', r)" by (cases "processMessage_A_try msg ?env0")
  from processMessage_A_try_nodes [of msg ?env0] t
  have "env' = ?env0\<lparr>m_nodes := m_nodes env'\<rparr>" by simp
  from arg_cong [OF this, of calls]
  have "calls env' = calls env @ [PhaseA msg]" by simp
  with t show ?thesis
    by (simp add: processMessage_A_def split: sum.splits option.splits)
qed

lemma calls_processBundle_A:
  "uncaught (snd (processBundle_A ps env)) = None \<Longrightarrow>
     calls (snd (processBundle_A ps env)) = calls env @ map PhaseA (concat (map messages ps))"
  "uncaught (snd (processPacket_A p env)) = None \<Longrightarrow>
     calls (snd (processPacket_A p env)) = calls env @ map PhaseA (messages p)"
proof (induction ps env and p env rule: processBundle_A_processPacket_A.induct)
  case (2 p ps env)
  obtain b env1 where p: "processPacket_A p env = (b, env1)" by (cases "processPacket_A p env")
  obtain b' env2 where ps: "processBundle_A ps env1 = (b', env2)"
    by (cases "processBundle_A ps env1")
  have u: "\<not> uncaught env1 \<noteq> None"
    using "2.prems" p by (cases "uncaught env1") simp_all
  with "2.prems" p ps have u2: "uncaught env2 = None" by simp
  from "2.IH"(1) p u have "calls env1 = calls env @ map PhaseA (messages p)" by simp
  moreover from "2.IH"(2) [OF p [symmetric] u] ps u2
  have "calls env2 = calls env1 @ map PhaseA (concat (map messages ps))" by simp
  ultimately show ?case using p ps u by simp
qed simp_all

section \<open>The log of unhandled exceptions\<close>

text \<open>
  Only the handler of \<^verbatim>\<open>processRequests\<close> writes to \<^verbatim>\<open>std::cerr\<close>: a turn of its loop
  leaves one line there if an exception has reached the handler, and none otherwise.
\<close>

lemma cerr_replyError [simp]: "cerr (replyError env rid msg) = cerr env"
  by (simp add: replyError_def)

lemma cerr_processMessage_B [simp]: "cerr (processMessage_B msg st ct env) = cerr env"
proof (cases "processMessage_B_try msg st ct (env\<lparr>calls := calls env @ [PhaseB msg st ct]\<rparr>)")
  case (Inl e)
  then show ?thesis by (simp add: processMessage_B_def Let_def)
next
  case (Inr env')
  from arg_cong [OF processMessage_B_try_nodes [OF Inr], of cerr]
  have "cerr env' = cerr env" by simp
  with Inr show ?thesis by (simp add: processMessage_B_def Let_def)
qed

lemma cerr_processBundle_B [simp]:
  "cerr (processBundle_B ps st ct env) = cerr env"
  "cerr (processPacket_B p st ct env) = cerr env"
  by (induction ps st ct env and p st ct env rule: processBundle_B_processPacket_B.induct)
    (simp_all add: Let_def)

lemma cerr_processMessage_A [simp]: "cerr (snd (processMessage_A msg env)) = cerr env"
proof -
  let ?env0 = "env\<lparr>calls := calls env @ [PhaseA msg]\<rparr>"
  obtain env' r where t: "processMessage_A_try msg ?env0 = (env', r)"
    by (cases "processMessage_A_try msg ?env0")
  from processMessage_A_try_nodes [of msg ?env0] t
  have "env' = ?env0\<lparr>m_nodes := m_nodes env'\<rparr>" by simp
  from arg_cong [OF this, of cerr]
  have "cerr env' = cerr env" by simp
  with t show ?thesis
    by (simp add: processMessage_A_def split: sum.splits option.splits)
qed

lemma cerr_processBundle_A [simp]:
  "cerr (snd (processBundle_A ps env)) = cerr env"
  "cerr (snd (processPacket_A p env)) = cerr env"
proof (induction ps env and p env rule: processBundle_A_processPacket_A.induct)
  case (2 p ps env)
  obtain b env1 where p: "processPacket_A p env = (b, env1)" by (cases "processPacket_A p env")
  obtain b' env2 where ps: "processBundle_A ps env1 = (b', env2)"
    by (cases "processBundle_A ps env1")
  from "2.IH"(1) p have e1: "cerr env1 = cerr env" by simp
  show ?case
  proof (cases "uncaught env1")
    case None
    then have u: "\<not> uncaught env1 \<noteq> None" by simp
    from "2.IH"(2) [OF p [symmetric] u] ps have "cerr env2 = cerr env1" by simp
    with e1 p ps None show ?thesis by simp
  next
    case (Some e)
    with e1 p show ?thesis by simp
  qed
qed simp_all

lemma cerr_processRequest_try [simp]: "cerr (processRequest_try ct r env) = cerr env"
proof (cases r)
  case (Msg msg)
  obtain ns env1 where a: "processMessage_A msg env = (ns, env1)"
    by (cases "processMessage_A msg env")
  from cerr_processMessage_A [of msg env] a have "cerr env1 = cerr env" by simp
  then show ?thesis by (simp add: Msg processRequest_try_def a)
next
  case (Bundle t ps)
  obtain ns env1 where a: "processBundle_A ps env = (ns, env1)"
    by (cases "processBundle_A ps env")
  from cerr_processBundle_A(1) [of ps env] a have "cerr env1 = cerr env" by simp
  then show ?thesis by (simp add: Bundle processRequest_try_def a split: sum.splits)
qed

lemma processRequest_no_exception:
  "uncaught (processRequest_try ct r env) = None \<Longrightarrow>
     processRequest ct r env = processRequest_try ct r env"
  by (simp add: processRequest_def catch_exception_def)

lemma length_cerr_processRequest:
  "length (cerr (processRequest ct r env)) =
     length (cerr env) + (if uncaught (processRequest_try ct r env) = None then 0 else 1)"
  by (cases "uncaught (processRequest_try ct r env)")
    (simp_all add: processRequest_def catch_exception_def)

lemma length_cerr_processRequests:
  "length (cerr env) \<le> length (cerr (processRequests ct rs env))"
proof (induction rs arbitrary: env)
  case Nil
  then show ?case by simp
next
  case (Cons r rs)
  have "length (cerr env) \<le> length (cerr (processRequest ct r env))"
    by (simp add: length_cerr_processRequest)
  also have "\<dots> \<le> length (cerr (processRequests ct rs (processRequest ct r env)))"
    by (rule Cons.IH)
  finally show ?case by simp
qed

lemma processRequests_no_exception:
  assumes "cerr (processRequests ct (r # rs) env) = cerr env"
  shows "uncaught (processRequest_try ct r env) = None"
    and "cerr (processRequests ct rs (processRequest ct r env)) = cerr (processRequest ct r env)"
proof -
  let ?env1 = "processRequest ct r env"
  from assms have "length (cerr (processRequests ct rs ?env1)) = length (cerr env)" by simp
  with length_cerr_processRequests [of ?env1 ct rs]
  have "length (cerr ?env1) \<le> length (cerr env)" by simp
  then show u: "uncaught (processRequest_try ct r env) = None"
    by (simp add: length_cerr_processRequest split: if_splits)
  from processRequest_no_exception [OF u] have "cerr ?env1 = cerr env" by simp
  with assms show "cerr (processRequests ct rs ?env1) = cerr ?env1" by simp
qed

text \<open>The calls of a turn of the loop, and of the loop, when no exception reaches the handler.\<close>

lemma calls_processRequest_try:
  assumes "uncaught (processRequest_try ct r env) = None"
  shows "calls (processRequest_try ct r env) =
     calls env @ map PhaseA (messages r) @
     (if needsScheduling r env \<and> immediate r then map (\<lambda>m. PhaseB m ct ct) (messages r) else [])"
proof (cases r)
  case (Msg msg)
  obtain ns env1 where a: "processMessage_A msg env = (ns, env1)"
    by (cases "processMessage_A msg env")
  from calls_processMessage_A [of msg env] a have c: "calls env1 = calls env @ [PhaseA msg]"
    by simp
  have n: "needsScheduling (Msg msg) env = ns" by (simp add: needsScheduling_def a)
  from assms have u: "uncaught env1 = None"
    by (cases "uncaught env1") (simp_all add: Msg processRequest_try_def a)
  then show ?thesis by (simp add: Msg processRequest_try_def a c n)
next
  case (Bundle t ps)
  obtain ns env1 where a: "processBundle_A ps env = (ns, env1)"
    by (cases "processBundle_A ps env")
  have n: "needsScheduling (Bundle t' ps) env = ns" for t'
    by (simp add: needsScheduling_def a)
  from assms have u: "uncaught env1 = None"
    by (cases "uncaught env1") (simp_all add: Bundle processRequest_try_def a)
  from calls_processBundle_A(1) [of ps env] a u
  have c: "calls env1 = calls env @ map PhaseA (concat (map messages ps))" by simp
  show ?thesis
  proof (cases "ns \<and> t = 1")
    case True
    with assms u have "uncaught (processBundle_B ps ct ct env1) = None"
      by (simp add: Bundle processRequest_try_def a)
    from calls_processBundle_B(1) [OF this] True u show ?thesis
      by (simp add: Bundle processRequest_try_def a c n)
  next
    case False
    with assms u show ?thesis
      by (auto simp: Bundle processRequest_try_def a c n split: sum.splits)
  qed
qed

lemma calls_processRequests:
  "cerr (processRequests ct rs env) = cerr env \<Longrightarrow>
     calls (processRequests ct rs env) = calls env @ request_calls ct rs env"
proof (induction rs arbitrary: env)
  case Nil
  then show ?case by simp
next
  case (Cons r rs)
  note n = processRequests_no_exception [OF Cons.prems]
  note e = processRequest_no_exception [OF n(1)]
  from Cons.IH [OF n(2)] calls_processRequest_try [OF n(1)] show ?case
    by (simp add: e)
qed

section \<open>The order of dispatch\<close>

lemma push_appends:
  "length (m_queue s) < m_maxSize s \<Longrightarrow>
     push s t r = Inr (s\<lparr>m_queue := m_queue s @ [\<lparr>m_time = t, m_request = r\<rparr>]\<rparr>)"
  by (simp add: push_def)

text \<open>What the rest of the callback leaves of a block that ends without an exception.\<close>

lemma process_dispatch:
  assumes "process ct nt n inputs outputs requests freed tree env = Inr env'"
  shows "uncaught (processScheduler ct nt (processRequests ct requests env)) = None"
    and "calls env' = calls (processScheduler ct nt (processRequests ct requests env))"
    and "m_scheduler env' = m_scheduler (processScheduler ct nt (processRequests ct requests env))"
proof -
  let ?env2 = "processScheduler ct nt (processRequests ct requests env)"
  from assms show u: "uncaught ?env2 = None"
    by (cases "uncaught ?env2") (simp_all add: process_def Let_def split: if_splits)
  from assms u obtain audio' where
    "env' = ?env2\<lparr>m_rtMem := m_rtMem ?env2 + freed,
                   m_audio := (zeroOutputs audio' n)\<lparr>m_epoch := m_epoch audio' + 1\<rparr>\<rparr>"
    by (auto simp: process_def Let_def split: if_splits sum.splits)
  then show "calls env' = calls ?env2" "m_scheduler env' = m_scheduler ?env2"
    by simp_all
qed

text \<open>
  Claim C2, as amended. The block end time is the \<^verbatim>\<open>double\<close> that
  \<^verbatim>\<open>Environment::process\<close> computes and hands to \<^verbatim>\<open>processScheduler\<close>. When no exception
  leaves the scheduler's loop (which every block that \<^verbatim>\<open>process\<close> completes has), the
  scheduled items whose time is at most the block end time are popped and dispatched
  (phase B), those with earlier times first and those with the same time in the order
  of their pushes; the items with later times stay queued, in their order. So of two
  requests that are in the scheduler together, the one with the earlier time is
  dispatched first. A push appends to the order of the pushes.
\<close>

theorem scheduler_dispatch_order:
  fixes env :: "'a::{plus,zero} Environment"
  assumes "uncaught (processScheduler ct nt env) = None"
  shows "calls (processScheduler ct nt env) =
       calls env @ concat (map (item_calls ct) (dispatch_order nt (m_queue (m_scheduler env))))
     \<and> m_queue (m_scheduler (processScheduler ct nt env)) =
         filter (\<lambda>i. \<not> time_le (m_time i) nt) (m_queue (m_scheduler env))
     \<and> sorted (map m_time (dispatch_order nt (m_queue (m_scheduler env))))
     \<and> (\<forall>t. filter (\<lambda>i. m_time i = t) (dispatch_order nt (m_queue (m_scheduler env))) =
             filter (\<lambda>i. m_time i = t)
               (filter (\<lambda>i. time_le (m_time i) nt) (m_queue (m_scheduler env))))
     \<and> set (dispatch_order nt (m_queue (m_scheduler env))) =
         {i \<in> set (m_queue (m_scheduler env)). time_le (m_time i) nt}
     \<and> (\<forall>s t r. length (m_queue s) < m_maxSize s \<longrightarrow>
           push s t r = Inr (s\<lparr>m_queue := m_queue s @ [\<lparr>m_time = t, m_request = r\<rparr>]\<rparr>))
     \<and> (\<forall>numFrames inputs outputs requests freed tree (env0 :: 'a Environment) env'.
           process ct nt numFrames inputs outputs requests freed tree env0 = Inr env' \<longrightarrow>
             calls env' =
               calls (processRequests ct requests env0) @
               concat (map (item_calls ct)
                 (dispatch_order nt (m_queue (m_scheduler (processRequests ct requests env0))))) \<and>
             m_queue (m_scheduler env') =
               filter (\<lambda>i. \<not> time_le (m_time i) nt)
                 (m_queue (m_scheduler (processRequests ct requests env0))))"
proof (intro conjI allI impI)
  note eq = processScheduler_eq [OF assms]
  have f: "uncaught (fold (\<lambda>item e. processPacket_B (m_request item) (m_time item) ct e)
      (dispatch_order nt (m_queue (m_scheduler env))) env) = None"
    using arg_cong [OF eq, of uncaught] assms by (simp add: dispatch_order_def)
  show "calls (processScheduler ct nt env) =
       calls env @ concat (map (item_calls ct) (dispatch_order nt (m_queue (m_scheduler env))))"
    using arg_cong [OF eq, of calls] calls_fold_dispatch [OF f]
    by (simp add: dispatch_order_def)
  show "m_queue (m_scheduler (processScheduler ct nt env)) =
         filter (\<lambda>i. \<not> time_le (m_time i) nt) (m_queue (m_scheduler env))"
    using arg_cong [OF eq, of "\<lambda>e. m_queue (m_scheduler e)"] by simp
  show "sorted (map m_time (dispatch_order nt (m_queue (m_scheduler env))))"
    by (simp add: dispatch_order_def)
  show "filter (\<lambda>i. m_time i = t) (dispatch_order nt (m_queue (m_scheduler env))) =
      filter (\<lambda>i. m_time i = t)
        (filter (\<lambda>i. time_le (m_time i) nt) (m_queue (m_scheduler env)))" for t
    unfolding dispatch_order_def by (rule sort_key_stable)
  show "set (dispatch_order nt (m_queue (m_scheduler env))) =
         {i \<in> set (m_queue (m_scheduler env)). time_le (m_time i) nt}"
    by (simp add: dispatch_order_def)
  show "push s t r = Inr (s\<lparr>m_queue := m_queue s @ [\<lparr>m_time = t, m_request = r\<rparr>]\<rparr>)"
    if "length (m_queue s) < m_maxSize s" for s t r
    using that by (rule push_appends)
  show "calls env' =
      calls (processRequests ct requests env0) @
      concat (map (item_calls ct)
        (dispatch_order nt (m_queue (m_scheduler (processRequests ct requests env0)))))"
    if p: "process ct nt numFrames inputs outputs requests freed tree env0 = Inr env'"
    for numFrames inputs outputs requests freed tree and env0 env' :: "'a Environment"
  proof -
    let ?env1 = "processRequests ct requests env0"
    note d = process_dispatch [OF p]
    note eq = processScheduler_eq [OF d(1)]
    have f: "uncaught (fold (\<lambda>item e. processPacket_B (m_request item) (m_time item) ct e)
        (dispatch_order nt (m_queue (m_scheduler ?env1))) ?env1) = None"
      using arg_cong [OF eq, of uncaught] d(1) by (simp add: dispatch_order_def)
    show ?thesis
      using arg_cong [OF eq, of calls] calls_fold_dispatch [OF f] d(2)
      by (simp add: dispatch_order_def)
  qed
  show "m_queue (m_scheduler env') =
      filter (\<lambda>i. \<not> time_le (m_time i) nt)
        (m_queue (m_scheduler (processRequests ct requests env0)))"
    if p: "process ct nt numFrames inputs outputs requests freed tree env0 = Inr env'"
    for numFrames inputs outputs requests freed tree and env0 env' :: "'a Environment"
  proof -
    note d = process_dispatch [OF p]
    note eq = processScheduler_eq [OF d(1)]
    show ?thesis
      using arg_cong [OF eq, of "\<lambda>e. m_queue (m_scheduler e)"] d(3) by simp
  qed
qed

theorem scheduler_dispatch_order_witness:
  "calls (processScheduler 0 (Double 6)
      (example_env\<lparr>m_scheduler := \<lparr>m_maxSize = 8, m_queue =
         [\<lparr>m_time = 5, m_request = Msg (Message ''/node/free'' [Int32 1])\<rparr>,
          \<lparr>m_time = 3, m_request = Msg (Message ''/node/free'' [Int32 2])\<rparr>,
          \<lparr>m_time = 9, m_request = Msg (Message ''/node/free'' [Int32 3])\<rparr>,
          \<lparr>m_time = 3, m_request = Msg (Message ''/node/free'' [Int32 4])\<rparr>]\<rparr>\<rparr>))
   = [PhaseB (Message ''/node/free'' [Int32 2]) 3 0,
      PhaseB (Message ''/node/free'' [Int32 4]) 3 0,
      PhaseB (Message ''/node/free'' [Int32 1]) 5 0]
   \<and> m_queue (m_scheduler (processScheduler 0 (Double 6)
      (example_env\<lparr>m_scheduler := \<lparr>m_maxSize = 8, m_queue =
         [\<lparr>m_time = 5, m_request = Msg (Message ''/node/free'' [Int32 1])\<rparr>,
          \<lparr>m_time = 3, m_request = Msg (Message ''/node/free'' [Int32 2])\<rparr>,
          \<lparr>m_time = 9, m_request = Msg (Message ''/node/free'' [Int32 3])\<rparr>,
          \<lparr>m_time = 3, m_request = Msg (Message ''/node/free'' [Int32 4])\<rparr>]\<rparr>\<rparr>)))
   = [\<lparr>m_time = 9, m_request = Msg (Message ''/node/free'' [Int32 3])\<rparr>]
   \<and> push (Scheduler 2) 7 (Msg (Message ''/node/free'' [Int32 1]))
   = Inr \<lparr>m_maxSize = 2, m_queue = [\<lparr>m_time = 7, m_request = Msg (Message ''/node/free'' [Int32 1])\<rparr>]\<rparr>"
proof -
  let ?q = "[\<lparr>m_time = 5, m_request = Msg (Message ''/node/free'' [Int32 1])\<rparr>,
          \<lparr>m_time = 3, m_request = Msg (Message ''/node/free'' [Int32 2])\<rparr>,
          \<lparr>m_time = 9, m_request = Msg (Message ''/node/free'' [Int32 3])\<rparr>,
          \<lparr>m_time = 3, m_request = Msg (Message ''/node/free'' [Int32 4])\<rparr>]"
  let ?env = "example_env\<lparr>m_scheduler := \<lparr>m_maxSize = 8, m_queue = ?q\<rparr>\<rparr>"
  have c: "calls ?env = []" by (simp add: example_env_def)
  have l: "length (m_queue (Scheduler 2)) < m_maxSize (Scheduler 2)" by (simp add: Scheduler_def)
  have u: "uncaught (processScheduler 0 (Double 6) ?env) = None"
    by (simp add: processScheduler.simps example_env_def isEmpty_def top_item_def pop_def
        pq_pop_def processMessage_B_def processMessage_B_try_def node_free_def
        node_free_args_def contains_def lookup_def NodeId_def replyError_def
        sizeof_ErrorData_def Let_def)
  note t = scheduler_dispatch_order [OF u]
  note t1 = t [THEN conjunct1]
  note t2 = t [THEN conjunct2, THEN conjunct1]
  note t6 = t [THEN conjunct2, THEN conjunct2, THEN conjunct2, THEN conjunct2, THEN conjunct2,
      THEN conjunct1, THEN spec, THEN spec, THEN spec, THEN mp, OF l]
  from t1 t2 t6 show ?thesis
    by (simp add: c dispatch_order_def item_calls_def Scheduler_def)
qed

text \<open>
  Claim C2 as it is stated speaks of every pair of requests pushed into the scheduler.
  A request that arrives late is pushed after a request with a later time has been
  dispatched. The engine runs at 48000 Hz with blocks of 64 frames, and the quotient
  \<^verbatim>\<open>64 / 48000.0\<close> is the double \<open>d = 6148914691236517 / 2\<^sup>6\<^sup>2\<close>
  (\<^verbatim>\<open>0x1.5d867c3ece2a5p-10\<close>). The first block, from 0 to \<open>d\<close>, receives a bundle for the
  OSC time 4294967 (\<open>4294967 / 2\<^sup>3\<^sup>2\<close>, just under a millisecond), pushes it and
  dispatches it. The second block, from \<open>d\<close> to \<open>d + d\<close>, receives a bundle for the
  earlier OSC time 2147483 and dispatches it then.
\<close>

theorem late_request_dispatched_after_later_time_counterexample:
  "map_sum id calls
     (run [\<lparr>block_time = 0, block_end = Double (6148914691236517 / 2 ^ 62),
            block_frames = 64, block_inputs = [], block_outputs = [],
            block_requests = [Bundle 4294967 [Msg (Message ''/node/free'' [Int32 7])]],
            block_freed = 0, block_tree = []\<rparr>,
           \<lparr>block_time = 6148914691236517 / 2 ^ 62,
            block_end = Double (6148914691236517 / 2 ^ 61),
            block_frames = 64, block_inputs = [], block_outputs = [],
            block_requests = [Bundle 2147483 [Msg (Message ''/node/free'' [Int32 8])]],
            block_freed = 0, block_tree = []\<rparr>]
        example_env)
   = Inr [PhaseA (Message ''/node/free'' [Int32 7]),
          PhaseB (Message ''/node/free'' [Int32 7]) (4294967 / 2 ^ 32) 0,
          PhaseA (Message ''/node/free'' [Int32 8]),
          PhaseB (Message ''/node/free'' [Int32 8]) (2147483 / 2 ^ 32)
            (6148914691236517 / 2 ^ 62)]
   \<and> (2147483 / 2 ^ 32 :: rat) < 4294967 / 2 ^ 32"
  by (simp add: process_def example_env_def processRequest_def processRequest_try_def
      catch_exception_def processMessage_A_def processMessage_A_try_def
      processMessage_B_def processMessage_B_try_def node_free_def node_free_args_def
      contains_def lookup_def replyError_def sizeof_ErrorData_def push_def Scheduler_def
      methcla_time_from_uint64_def processScheduler.simps isEmpty_def top_item_def pop_def
      pq_pop_def connectBuses_def zeroOutputs_def NodeId_def Let_def)

section \<open>Phase A and phase B within a block\<close>

lemma synth_new_result:
  "snd (synth_new a env) = Inr (Some True) \<or> (\<exists>e. snd (synth_new a env) = Inl e)"
  by (simp add: synth_new_def split: option.splits sum.splits prod.splits)

lemma needsScheduling_message:
  assumes "address msg \<noteq> ''/group/new''"
  shows "needsScheduling (Msg msg) env"
proof -
  let ?env0 = "env\<lparr>calls := calls env @ [PhaseA msg]\<rparr>"
  obtain env' r where t: "processMessage_A_try msg ?env0 = (env', r)"
    by (cases "processMessage_A_try msg ?env0")
  have "r = Inr (Some True) \<or> r = Inr None \<or> (\<exists>e. r = Inl e)"
  proof (cases "address msg = ''/synth/new''")
    case True
    with t have "snd (synth_new (args msg) ?env0) = r"
      by (simp add: processMessage_A_try_def)
    with synth_new_result [of "args msg" ?env0] show ?thesis by auto
  next
    case False
    with assms t show ?thesis by (auto simp: processMessage_A_try_def split: if_splits)
  qed
  with t show ?thesis
    by (auto simp: needsScheduling_def processMessage_A_def)
qed

text \<open>
  Claim C7, as amended. In a block in which no exception leaves the dispatcher (the
  handler of \<^verbatim>\<open>processRequests\<close> logs none, and none leaves \<^verbatim>\<open>processScheduler\<close>), the
  calls of \<^verbatim>\<open>processMessage\<close> are these, in this order. First, for every request drained
  from the request queue, in the order of the queue: phase A of its messages and then,
  if phase A has asked for it and the request is dispatched at once (which only a
  message or a bundle with time 1 is), phase B of its messages, right after its own
  phase A and before phase A of the requests behind it in the queue. Then, after the
  last of the drained requests, phase B of the items the scheduler dispatches in this
  block, those that are due, in the order of their times. So phase A of every drained
  request runs before phase B of every request the scheduler dispatches, and phase A of
  a request runs before its own phase B. Phase A asks for phase B for every message but
  a \<^verbatim>\<open>/group/new\<close>.
\<close>

theorem phase_A_before_scheduled_phase_B:
  fixes env :: "'a::{plus,zero} Environment"
  assumes "cerr (processRequests ct rs env) = cerr env"
    and "uncaught (processScheduler ct nt (processRequests ct rs env)) = None"
  shows "calls (processScheduler ct nt (processRequests ct rs env)) =
       calls env @ request_calls ct rs env @
       concat (map (item_calls ct)
         (dispatch_order nt (m_queue (m_scheduler (processRequests ct rs env)))))
     \<and> (\<forall>r rs' env0. request_calls ct (r # rs') (env0 :: 'a Environment) =
           map PhaseA (messages r) @
           (if needsScheduling r env0 \<and> immediate r
            then map (\<lambda>m. PhaseB m ct ct) (messages r) else []) @
           request_calls ct rs' (processRequest ct r env0))
     \<and> (\<forall>msg (env0 :: 'a Environment).
           address msg \<noteq> ''/group/new'' \<longrightarrow> needsScheduling (Msg msg) env0)
     \<and> (\<forall>numFrames inputs outputs freed tree env'.
           process ct nt numFrames inputs outputs rs freed tree env = Inr env' \<longrightarrow>
             calls env' = calls (processScheduler ct nt (processRequests ct rs env)))"
proof (intro conjI allI impI)
  let ?env1 = "processRequests ct rs env"
  note eq = processScheduler_eq [OF assms(2)]
  have f: "uncaught (fold (\<lambda>item e. processPacket_B (m_request item) (m_time item) ct e)
      (dispatch_order nt (m_queue (m_scheduler ?env1))) ?env1) = None"
    using arg_cong [OF eq, of uncaught] assms(2) by (simp add: dispatch_order_def)
  show "calls (processScheduler ct nt ?env1) =
       calls env @ request_calls ct rs env @
       concat (map (item_calls ct) (dispatch_order nt (m_queue (m_scheduler ?env1))))"
    using arg_cong [OF eq, of calls] calls_fold_dispatch [OF f]
      calls_processRequests [OF assms(1)]
    by (simp add: dispatch_order_def)
  show "request_calls ct (r # rs') env0 =
           map PhaseA (messages r) @
           (if needsScheduling r env0 \<and> immediate r
            then map (\<lambda>m. PhaseB m ct ct) (messages r) else []) @
           request_calls ct rs' (processRequest ct r env0)"
    for r rs' and env0 :: "'a Environment"
    by simp
  show "needsScheduling (Msg msg) env0"
    if "address msg \<noteq> ''/group/new''" for msg and env0 :: "'a Environment"
    using that by (rule needsScheduling_message)
  show "calls env' = calls (processScheduler ct nt (processRequests ct rs env))"
    if "process ct nt numFrames inputs outputs rs freed tree env = Inr env'"
    for numFrames inputs outputs freed tree env'
    using that by (rule process_dispatch(2))
qed

theorem phase_A_before_scheduled_phase_B_witness:
  "calls (processScheduler 0 (Double (6148914691236517 / 2 ^ 62))
       (processRequests 0
          [Msg (Message ''/node/free'' [Int32 7]),
           Bundle 4294967 [Msg (Message ''/node/free'' [Int32 8])],
           Msg (Message ''/node/free'' [Int32 9])] example_env))
     = [PhaseA (Message ''/node/free'' [Int32 7]),
        PhaseB (Message ''/node/free'' [Int32 7]) 0 0,
        PhaseA (Message ''/node/free'' [Int32 8]),
        PhaseA (Message ''/node/free'' [Int32 9]),
        PhaseB (Message ''/node/free'' [Int32 9]) 0 0,
        PhaseB (Message ''/node/free'' [Int32 8]) (4294967 / 2 ^ 32) 0]"
proof -
  let ?rs = "[Msg (Message ''/node/free'' [Int32 7]),
           Bundle 4294967 [Msg (Message ''/node/free'' [Int32 8])],
           Msg (Message ''/node/free'' [Int32 9])]"
  let ?nt = "Double (6148914691236517 / 2 ^ 62)"
  note defs = example_env_def processRequest_def processRequest_try_def
      catch_exception_def processMessage_A_def processMessage_A_try_def
      processMessage_B_def processMessage_B_try_def node_free_def node_free_args_def
      contains_def lookup_def replyError_def sizeof_ErrorData_def push_def Scheduler_def
      methcla_time_from_uint64_def NodeId_def Let_def
  have q: "m_queue (m_scheduler (processRequests 0 ?rs example_env)) =
      [\<lparr>m_time = 4294967 / 2 ^ 32,
        m_request = Bundle 4294967 [Msg (Message ''/node/free'' [Int32 8])]\<rparr>]"
    by (simp add: defs)
  have c: "cerr (processRequests 0 ?rs example_env) = cerr example_env"
    by (simp add: defs)
  have u: "uncaught (processScheduler 0 ?nt (processRequests 0 ?rs example_env)) = None"
    by (simp add: defs processScheduler.simps isEmpty_def top_item_def pop_def pq_pop_def)
  have r: "request_calls 0 ?rs example_env =
      [PhaseA (Message ''/node/free'' [Int32 7]),
       PhaseB (Message ''/node/free'' [Int32 7]) 0 0,
       PhaseA (Message ''/node/free'' [Int32 8]),
       PhaseA (Message ''/node/free'' [Int32 9]),
       PhaseB (Message ''/node/free'' [Int32 9]) 0 0]"
    by (simp add: defs needsScheduling_def)
  have e: "calls example_env = []" by (simp add: example_env_def)
  note t = phase_A_before_scheduled_phase_B [OF c u, THEN conjunct1]
  from t [unfolded q r e] show ?thesis
    by (simp add: dispatch_order_def item_calls_def)
qed

text \<open>
  Claim C7 as it is stated puts phase A of all the requests of a block before phase B of
  any of them. Two messages drained in one block are each dispatched at once: phase B of
  the first runs before phase A of the second. (The block has 64 frames at 48000 Hz
  and starts at time 0; its end time is the double \<^verbatim>\<open>64 / 48000.0\<close>.)
\<close>

theorem immediate_phase_B_before_next_phase_A_counterexample:
  "map_sum id calls
     (process 0 (Double (6148914691236517 / 2 ^ 62)) 64 [] []
        [Msg (Message ''/node/free'' [Int32 7]), Msg (Message ''/node/free'' [Int32 8])] 0 []
        example_env)
   = Inr [PhaseA (Message ''/node/free'' [Int32 7]),
          PhaseB (Message ''/node/free'' [Int32 7]) 0 0,
          PhaseA (Message ''/node/free'' [Int32 8]),
          PhaseB (Message ''/node/free'' [Int32 8]) 0 0]"
  by (simp add: process_def example_env_def processRequest_def processRequest_try_def
      catch_exception_def processMessage_A_def
      processMessage_A_try_def processMessage_B_def processMessage_B_try_def node_free_def
      node_free_args_def contains_def lookup_def NodeId_def replyError_def sizeof_ErrorData_def
      processScheduler.simps isEmpty_def Scheduler_def Let_def connectBuses_def zeroOutputs_def)

section \<open>Errors of the dispatcher\<close>

lemma lookup_calls_update [simp]: "lookup (env\<lparr>calls := c\<rparr>) = lookup env"
  by (simp add: lookup_def fun_eq_iff)

lemma contains_calls_update [simp]: "contains (env\<lparr>calls := c\<rparr>) = contains env"
  by (simp add: contains_def fun_eq_iff)

lemma lookupSynth_calls_update [simp]: "lookupSynth (env\<lparr>calls := c\<rparr>) = lookupSynth env"
  by (simp add: lookupSynth_def fun_eq_iff)

lemma setNode_calls_update [simp]:
  "setNode (env\<lparr>calls := c\<rparr>) k n = (setNode env k n)\<lparr>calls := c\<rparr>"
  by (simp add: setNode_def)

lemma remove_node_calls_update [simp]:
  "remove_node (env\<lparr>calls := c\<rparr>) k = (remove_node env k)\<lparr>calls := c\<rparr>"
  by (simp add: remove_node_def)













subsection \<open>A full scheduler\<close>

text \<open>
  Claim C3 says that a push to a full scheduler is answered with an \<^verbatim>\<open>/error\<close> reply.
  The scheduler holds \<open>kQueueSize\<close> requests; a bundle for a later time arrives with a
  \<^verbatim>\<open>/synth/new\<close>. Phase A creates the synth, the push throws, and the handler in
  \<^verbatim>\<open>processRequests\<close> writes to \<^verbatim>\<open>std::cerr\<close>: no command goes to the worker, so no
  reply is sent, the request is not queued, and the synth stays inactive.
\<close>

theorem scheduler_overflow_is_only_logged:
  "replies (processRequests 0
      [Bundle 4294967 [Msg (Message ''/synth/new'' [Str ''sine'', Int32 2, Int32 0, Int32 1])]]
      (example_env\<lparr>m_scheduler := \<lparr>m_maxSize = kQueueSize, m_queue =
          replicate kQueueSize \<lparr>m_time = 100, m_request = Msg (Message ''/node/free'' [Int32 9])\<rparr>\<rparr>\<rparr>))
   = []
   \<and> m_scheduler (processRequests 0
      [Bundle 4294967 [Msg (Message ''/synth/new'' [Str ''sine'', Int32 2, Int32 0, Int32 1])]]
      (example_env\<lparr>m_scheduler := \<lparr>m_maxSize = kQueueSize, m_queue =
          replicate kQueueSize \<lparr>m_time = 100, m_request = Msg (Message ''/node/free'' [Int32 9])\<rparr>\<rparr>\<rparr>))
   = \<lparr>m_maxSize = kQueueSize, m_queue =
          replicate kQueueSize \<lparr>m_time = 100, m_request = Msg (Message ''/node/free'' [Int32 9])\<rparr>\<rparr>
   \<and> cerr (processRequests 0
      [Bundle 4294967 [Msg (Message ''/synth/new'' [Str ''sine'', Int32 2, Int32 0, Int32 1])]]
      (example_env\<lparr>m_scheduler := \<lparr>m_maxSize = kQueueSize, m_queue =
          replicate kQueueSize \<lparr>m_time = 100, m_request = Msg (Message ''/node/free'' [Int32 9])\<rparr>\<rparr>\<rparr>))
   = [''Unhandled exception in '' @ [CHR 0x60] @ ''processRequests'' @ [CHR 0x27] @
      '': Scheduler queue overflow'']
   \<and> map_option isSynth (lookup (processRequests 0
      [Bundle 4294967 [Msg (Message ''/synth/new'' [Str ''sine'', Int32 2, Int32 0, Int32 1])]]
      (example_env\<lparr>m_scheduler := \<lparr>m_maxSize = kQueueSize, m_queue =
          replicate kQueueSize \<lparr>m_time = 100, m_request = Msg (Message ''/node/free'' [Int32 9])\<rparr>\<rparr>\<rparr>)) 2)
   = Some True"
  by (simp add: replies_def example_env_def processRequest_def processRequest_try_def
      catch_exception_def processMessage_A_def
      processMessage_A_try_def synth_new_def synth_new_args_def synth_new_arrays_def
      args_optional_array_def args_atEnd_def synthDef_def lookup_def NodeId_def targetGroup_def
      Synth_construct_def addToGroup_def setNode_def insert_node_def contains_def push_def
      isSynth_def)

section \<open>New nodes\<close>

lemma map_of_setNode:
  "map_of (map (\<lambda>(k, n). if k = g then (k, node) else (k, n)) xs) k' =
     (if k' = g \<and> map_of xs g \<noteq> None then Some node else map_of xs k')"
  by (induction xs) auto

lemma lookup_setNode:
  "lookup (setNode env g node) k =
     (if k = g \<and> lookup env g \<noteq> None then Some node else lookup env k)"
  by (simp add: lookup_def setNode_def map_of_setNode)

lemma length_m_nodes_setNode [simp]: "length (m_nodes (setNode env g node)) = length (m_nodes env)"
  by (simp add: setNode_def)

lemma m_maxNumNodes_setNode [simp]: "m_maxNumNodes (setNode env g node) = m_maxNumNodes env"
  by (simp add: setNode_def)

lemma lookup_addToGroup_tail:
  assumes "lookup env g = Some (GroupNode p cs)"
  shows "lookup (addToGroup env (Some g) k kAddToTail) k' =
     (if k' = g then Some (GroupNode p (cs @ [k])) else lookup env k')"
  using assms by (simp add: addToGroup_def lookup_setNode)

lemma addToGroup_sizes:
  "length (m_nodes (addToGroup env target k a)) = length (m_nodes env)"
  "m_maxNumNodes (addToGroup env target k a) = m_maxNumNodes env"
  by (simp_all add: addToGroup_def split: option.splits Node.splits)

lemma insert_node_fresh:
  assumes "lookup env k = None" "length (m_nodes env) < m_maxNumNodes env"
  shows "insert_node env k n = Inr (env\<lparr>m_nodes := m_nodes env @ [(k, n)]\<rparr>)"
  using assms by (simp add: insert_node_def contains_def)

lemma lookup_append_fresh:
  "lookup env k = None \<Longrightarrow>
     lookup (env\<lparr>m_nodes := m_nodes env @ [(k, n)]\<rparr>) k' = (if k' = k then Some n else lookup env k')"
  by (auto simp: lookup_def map_add_def split: option.splits)

lemma group_new_tail:
  assumes t: "lookup env (NodeId t) = Some targetNode"
    and g: "targetGroup (NodeId t) targetNode = Some g" "lookup env g = Some (GroupNode p cs)"
    and n: "lookup env (NodeId n) = None" "length (m_nodes env) < m_maxNumNodes env"
  shows "\<exists>env'. group_new [Int32 n, Int32 t, a] env = (env', Inr (Some False)) \<and>
     lookup env' g = Some (GroupNode p (cs @ [NodeId n])) \<and>
     lookup env' (NodeId n) = Some (GroupNode (Some g) [])"
proof -
  let ?env1 = "addToGroup env (Some g) (NodeId n) kAddToTail"
  from g(2) n(1) have ne: "NodeId n \<noteq> g" by auto
  have l1: "lookup ?env1 (NodeId n) = None"
    using n(1) ne by (simp add: lookup_addToGroup_tail [OF g(2)])
  have s1: "length (m_nodes ?env1) < m_maxNumNodes ?env1"
    using n(2) by (simp add: addToGroup_sizes)
  have i: "insert_node ?env1 (NodeId n) (GroupNode (Some g) []) =
      Inr (?env1\<lparr>m_nodes := m_nodes ?env1 @ [(NodeId n, GroupNode (Some g) [])]\<rparr>)"
    using l1 s1 by (rule insert_node_fresh)
  show ?thesis
    using t g(1) i ne
    by (simp add: group_new_def group_new_args_def Group_construct_def
        lookup_append_fresh [OF l1] lookup_addToGroup_tail [OF g(2)])
qed

lemma synth_new_tail:
  assumes t: "lookup env (NodeId t) = Some targetNode"
    and g: "targetGroup (NodeId t) targetNode = Some g" "lookup env g = Some (GroupNode p cs)"
    and n: "lookup env (NodeId n) = None" "length (m_nodes env) < m_maxNumNodes env"
    and d: "synthDef env defName = Inr def" "synth_new_arrays rest = Some (synthControls, synthArgs)"
  shows "\<exists>env' s. synth_new (Str defName # Int32 n # Int32 t # a # rest) env = (env', Inr (Some True)) \<and>
     lookup env' g = Some (GroupNode p (cs @ [NodeId n])) \<and>
     lookup env' (NodeId n) = Some (SynthNode (Some g) s) \<and> \<not> m_active s"
proof -
  let ?env1 = "addToGroup env (Some g) (NodeId n) kAddToTail"
  let ?s = "snd (Synth_construct env (NodeId n) (Some g) kAddToTail def synthControls synthArgs)"
  from g(2) n(1) have ne: "NodeId n \<noteq> g" by auto
  have l1: "lookup ?env1 (NodeId n) = None"
    using n(1) ne by (simp add: lookup_addToGroup_tail [OF g(2)])
  have s1: "length (m_nodes ?env1) < m_maxNumNodes ?env1"
    using n(2) by (simp add: addToGroup_sizes)
  have i: "insert_node ?env1 (NodeId n) ?s = Inr (?env1\<lparr>m_nodes := m_nodes ?env1 @ [(NodeId n, ?s)]\<rparr>)"
    using l1 s1 by (rule insert_node_fresh)
  show ?thesis
    using t g(1) d i ne
    by (simp add: synth_new_def synth_new_args_def Synth_construct_def
        lookup_append_fresh [OF l1] lookup_addToGroup_tail [OF g(2)])
qed

lemma group_new_calls_update:
  "group_new a (env\<lparr>calls := c\<rparr>) = (case group_new a env of (e, r) \<Rightarrow> (e\<lparr>calls := c\<rparr>, r))"
  by (simp add: group_new_def Group_construct_def addToGroup_def insert_node_def
      split: option.splits Node.splits prod.splits)

lemma synthDef_calls_update [simp]: "synthDef (env\<lparr>calls := c\<rparr>) = synthDef env"
  by (simp add: synthDef_def fun_eq_iff)

lemma synth_new_calls_update:
  "synth_new a (env\<lparr>calls := c\<rparr>) = (case synth_new a env of (e, r) \<Rightarrow> (e\<lparr>calls := c\<rparr>, r))"
  by (simp add: synth_new_def Synth_construct_def addToGroup_def insert_node_def
      split: option.splits Node.splits prod.splits sum.splits)

lemma processMessage_A_try_calls_update:
  "processMessage_A_try msg (env\<lparr>calls := c\<rparr>) =
     (case processMessage_A_try msg env of (e, r) \<Rightarrow> (e\<lparr>calls := c\<rparr>, r))"
  by (simp add: processMessage_A_try_def group_new_calls_update synth_new_calls_update)

subsection \<open>The add action\<close>

lemma processMessage_A_eq:
  "processMessage_A msg env =
     (case processMessage_A_try msg env of
        (env', Inl e) \<Rightarrow>
          (True, replyError (env'\<lparr>calls := calls env @ [PhaseA msg]\<rparr>) kMethcla_Notification (what e))
      | (env', Inr (Some ns)) \<Rightarrow>
          (ns, env'\<lparr>calls := calls env @ [PhaseA msg]\<rparr>)
      | (env', Inr None) \<Rightarrow> (True, env'\<lparr>calls := calls env @ [PhaseA msg]\<rparr>))"
  by (simp add: processMessage_A_def processMessage_A_try_calls_update
      split: prod.splits sum.splits option.splits)

text \<open>
  Claim C10. \<^verbatim>\<open>/group/new\<close> and \<^verbatim>\<open>/synth/new\<close> drop the \<open>addAction\<close> argument: whatever
  value the client supplies, the engine does the same but for the message it logs. When
  the target node exists, the group it resolves to (the target itself if it is a group,
  the parent of the target if it is a synth) is in the node map, and the new id is free
  and the map has room, the new node is added at the tail of the children of that group.
\<close>

theorem addAction_is_ignored:
  fixes env :: "'a Environment"
  shows
    "(fst (processMessage_A (Message ''/group/new'' [Int32 n, Int32 t, a]) env) =
        fst (processMessage_A (Message ''/group/new'' [Int32 n, Int32 t, a']) env)
      \<and> (snd (processMessage_A (Message ''/group/new'' [Int32 n, Int32 t, a]) env))\<lparr>calls := c\<rparr> =
        (snd (processMessage_A (Message ''/group/new'' [Int32 n, Int32 t, a']) env))\<lparr>calls := c\<rparr>)
   \<and> (fst (processMessage_A (Message ''/synth/new'' (Str defName # Int32 n # Int32 t # a # rest)) env) =
        fst (processMessage_A (Message ''/synth/new'' (Str defName # Int32 n # Int32 t # a' # rest)) env)
      \<and> (snd (processMessage_A (Message ''/synth/new'' (Str defName # Int32 n # Int32 t # a # rest)) env))
          \<lparr>calls := c\<rparr> =
        (snd (processMessage_A (Message ''/synth/new'' (Str defName # Int32 n # Int32 t # a' # rest)) env))
          \<lparr>calls := c\<rparr>)
   \<and> (lookup env (NodeId t) = Some targetNode \<and>
       ((isGroup targetNode \<and> g = NodeId t) \<or> (isSynth targetNode \<and> m_parent targetNode = Some g)) \<and>
       lookup env g = Some (GroupNode p cs) \<and>
       lookup env (NodeId n) = None \<and> length (m_nodes env) < m_maxNumNodes env \<longrightarrow>
       (\<exists>env'. processMessage_A (Message ''/group/new'' [Int32 n, Int32 t, a]) env = (False, env') \<and>
          lookup env' g = Some (GroupNode p (cs @ [NodeId n])) \<and>
          lookup env' (NodeId n) = Some (GroupNode (Some g) [])))
   \<and> (lookup env (NodeId t) = Some targetNode \<and>
       ((isGroup targetNode \<and> g = NodeId t) \<or> (isSynth targetNode \<and> m_parent targetNode = Some g)) \<and>
       lookup env g = Some (GroupNode p cs) \<and>
       lookup env (NodeId n) = None \<and> length (m_nodes env) < m_maxNumNodes env \<and>
       synthDef env defName = Inr def \<and> synth_new_arrays rest = Some (synthControls, synthArgs) \<longrightarrow>
       (\<exists>env' s. processMessage_A (Message ''/synth/new'' (Str defName # Int32 n # Int32 t # a # rest)) env
            = (True, env') \<and>
          lookup env' g = Some (GroupNode p (cs @ [NodeId n])) \<and>
          lookup env' (NodeId n) = Some (SynthNode (Some g) s) \<and> \<not> m_active s))"
proof (intro conjI impI)
  have g: "group_new [Int32 n, Int32 t, a] env = group_new [Int32 n, Int32 t, a'] env"
    by (simp add: group_new_def group_new_args_def)
  have s: "synth_new (Str defName # Int32 n # Int32 t # a # rest) env =
      synth_new (Str defName # Int32 n # Int32 t # a' # rest) env"
    by (simp add: synth_new_def synth_new_args_def)
  show "fst (processMessage_A (Message ''/group/new'' [Int32 n, Int32 t, a]) env) =
        fst (processMessage_A (Message ''/group/new'' [Int32 n, Int32 t, a']) env)"
    by (simp add: processMessage_A_eq processMessage_A_try_def g
        split: prod.splits sum.splits option.splits)
  show "(snd (processMessage_A (Message ''/group/new'' [Int32 n, Int32 t, a]) env))\<lparr>calls := c\<rparr> =
        (snd (processMessage_A (Message ''/group/new'' [Int32 n, Int32 t, a']) env))\<lparr>calls := c\<rparr>"
    by (simp add: processMessage_A_eq processMessage_A_try_def g replyError_def
        split: prod.splits sum.splits option.splits)
  show "fst (processMessage_A (Message ''/synth/new'' (Str defName # Int32 n # Int32 t # a # rest)) env) =
        fst (processMessage_A (Message ''/synth/new'' (Str defName # Int32 n # Int32 t # a' # rest)) env)"
    by (simp add: processMessage_A_eq processMessage_A_try_def s
        split: prod.splits sum.splits option.splits)
  show "(snd (processMessage_A (Message ''/synth/new'' (Str defName # Int32 n # Int32 t # a # rest)) env))
          \<lparr>calls := c\<rparr> =
        (snd (processMessage_A (Message ''/synth/new'' (Str defName # Int32 n # Int32 t # a' # rest)) env))
          \<lparr>calls := c\<rparr>"
    by (simp add: processMessage_A_eq processMessage_A_try_def s replyError_def
        split: prod.splits sum.splits option.splits)
next
  assume h: "lookup env (NodeId t) = Some targetNode \<and>
       ((isGroup targetNode \<and> g = NodeId t) \<or> (isSynth targetNode \<and> m_parent targetNode = Some g)) \<and>
       lookup env g = Some (GroupNode p cs) \<and>
       lookup env (NodeId n) = None \<and> length (m_nodes env) < m_maxNumNodes env"
  then have tg: "targetGroup (NodeId t) targetNode = Some g"
    by (auto simp: targetGroup_def isSynth_def)
  from h group_new_tail [OF _ tg, of env p cs n a] obtain env' where
    e: "group_new [Int32 n, Int32 t, a] env = (env', Inr (Some False))"
       "lookup env' g = Some (GroupNode p (cs @ [NodeId n]))"
       "lookup env' (NodeId n) = Some (GroupNode (Some g) [])"
    by blast
  then show "\<exists>env'. processMessage_A (Message ''/group/new'' [Int32 n, Int32 t, a]) env = (False, env') \<and>
          lookup env' g = Some (GroupNode p (cs @ [NodeId n])) \<and>
          lookup env' (NodeId n) = Some (GroupNode (Some g) [])"
    by (simp add: processMessage_A_eq processMessage_A_try_def)
next
  assume h: "lookup env (NodeId t) = Some targetNode \<and>
       ((isGroup targetNode \<and> g = NodeId t) \<or> (isSynth targetNode \<and> m_parent targetNode = Some g)) \<and>
       lookup env g = Some (GroupNode p cs) \<and>
       lookup env (NodeId n) = None \<and> length (m_nodes env) < m_maxNumNodes env \<and>
       synthDef env defName = Inr def \<and> synth_new_arrays rest = Some (synthControls, synthArgs)"
  then have tg: "targetGroup (NodeId t) targetNode = Some g"
    by (auto simp: targetGroup_def isSynth_def)
  from h synth_new_tail [OF _ tg, of env p cs n defName "def" rest synthControls synthArgs a]
  obtain env' s where
    e: "synth_new (Str defName # Int32 n # Int32 t # a # rest) env = (env', Inr (Some True))"
       "lookup env' g = Some (GroupNode p (cs @ [NodeId n]))"
       "lookup env' (NodeId n) = Some (SynthNode (Some g) s)" "\<not> m_active s"
    by blast
  then show "\<exists>env' s. processMessage_A (Message ''/synth/new'' (Str defName # Int32 n # Int32 t # a # rest)) env
            = (True, env') \<and>
          lookup env' g = Some (GroupNode p (cs @ [NodeId n])) \<and>
          lookup env' (NodeId n) = Some (SynthNode (Some g) s) \<and> \<not> m_active s"
    by (simp add: processMessage_A_eq processMessage_A_try_def)
qed

theorem addAction_is_ignored_witness:
  "\<exists>env'. processMessage_A (Message ''/group/new'' [Int32 6, Int32 0, Int32 0])
       (example_env\<lparr>m_nodes := [(0, GroupNode None [5]), (5, GroupNode (Some 0) [])]\<rparr>)
       = (False, env') \<and>
     lookup env' 0 = Some (GroupNode None [5, 6]) \<and>
     lookup env' 6 = Some (GroupNode (Some 0) [])"
proof -
  let ?env = "example_env\<lparr>m_nodes := [(0, GroupNode None [5]), (5, GroupNode (Some 0) [])]\<rparr>"
  have h: "lookup ?env (NodeId 0) = Some (GroupNode None [5]) \<and>
       ((isGroup (GroupNode None [5]) \<and> 0 = NodeId 0) \<or>
        (isSynth (GroupNode None [5]) \<and> m_parent (GroupNode None [5]) = Some 0)) \<and>
       lookup ?env 0 = Some (GroupNode None [5]) \<and>
       lookup ?env (NodeId 6) = None \<and> length (m_nodes ?env) < m_maxNumNodes ?env"
    by (simp add: lookup_def NodeId_def example_env_def)
  note inst = addAction_is_ignored [where env = ?env and n = 6 and t = 0 and a = "Int32 0"
      and targetNode = "GroupNode None [5]" and g = 0 and p = None and cs = "[5]"]
  from inst [THEN conjunct2, THEN conjunct2, THEN conjunct1] h
  have "\<exists>env'. processMessage_A (Message ''/group/new'' [Int32 6, Int32 0, Int32 0]) ?env = (False, env') \<and>
          lookup env' 0 = Some (GroupNode None ([5] @ [NodeId 6])) \<and>
          lookup env' (NodeId 6) = Some (GroupNode (Some 0) [])"
    by blast
  then show ?thesis by (simp add: NodeId_def)
qed

section \<open>Epochs\<close>

subsection \<open>The dispatcher leaves the buses alone\<close>

lemma m_audio_replyError [simp]: "m_audio (replyError env rid msg) = m_audio env"
  by (simp add: replyError_def)

lemma m_audio_processMessage_B [simp]: "m_audio (processMessage_B msg st ct env) = m_audio env"
proof (cases "processMessage_B_try msg st ct (env\<lparr>calls := calls env @ [PhaseB msg st ct]\<rparr>)")
  case (Inl e)
  then show ?thesis by (simp add: processMessage_B_def Let_def)
next
  case (Inr env')
  from arg_cong [OF processMessage_B_try_nodes [OF Inr], of m_audio]
  have "m_audio env' = m_audio env" by simp
  with Inr show ?thesis by (simp add: processMessage_B_def Let_def)
qed

lemma m_audio_processBundle_B [simp]:
  "m_audio (processBundle_B ps st ct env) = m_audio env"
  "m_audio (processPacket_B p st ct env) = m_audio env"
  by (induction ps st ct env and p st ct env rule: processBundle_B_processPacket_B.induct)
    (simp_all add: Let_def)

lemma m_audio_processMessage_A [simp]: "m_audio (snd (processMessage_A msg env)) = m_audio env"
proof -
  let ?env0 = "env\<lparr>calls := calls env @ [PhaseA msg]\<rparr>"
  obtain env' r where t: "processMessage_A_try msg ?env0 = (env', r)"
    by (cases "processMessage_A_try msg ?env0")
  from processMessage_A_try_nodes [of msg ?env0] t
  have "env' = ?env0\<lparr>m_nodes := m_nodes env'\<rparr>" by simp
  from arg_cong [OF this, of m_audio]
  have "m_audio env' = m_audio env" by simp
  with t show ?thesis
    by (simp add: processMessage_A_def split: sum.splits option.splits)
qed

lemma m_audio_processBundle_A [simp]:
  "m_audio (snd (processBundle_A ps env)) = m_audio env"
  "m_audio (snd (processPacket_A p env)) = m_audio env"
proof (induction ps env and p env rule: processBundle_A_processPacket_A.induct)
  case (2 p ps env)
  obtain b env1 where p: "processPacket_A p env = (b, env1)" by (cases "processPacket_A p env")
  obtain b' env2 where ps: "processBundle_A ps env1 = (b', env2)"
    by (cases "processBundle_A ps env1")
  from "2.IH"(1) p have e1: "m_audio env1 = m_audio env" by simp
  show ?case
  proof (cases "uncaught env1")
    case None
    then have u: "\<not> uncaught env1 \<noteq> None" by simp
    from "2.IH"(2) [OF p [symmetric] u] ps have "m_audio env2 = m_audio env1" by simp
    with e1 p ps None show ?thesis by simp
  next
    case (Some e)
    with e1 p show ?thesis by simp
  qed
qed simp_all

lemma m_audio_processRequest_try [simp]: "m_audio (processRequest_try ct r env) = m_audio env"
proof (cases r)
  case (Msg msg)
  obtain ns env1 where a: "processMessage_A msg env = (ns, env1)"
    by (cases "processMessage_A msg env")
  from m_audio_processMessage_A [of msg env] a have "m_audio env1 = m_audio env" by simp
  then show ?thesis by (simp add: Msg processRequest_try_def a)
next
  case (Bundle t ps)
  obtain ns env1 where a: "processBundle_A ps env = (ns, env1)"
    by (cases "processBundle_A ps env")
  from m_audio_processBundle_A(1) [of ps env] a have "m_audio env1 = m_audio env" by simp
  then show ?thesis by (simp add: Bundle processRequest_try_def a split: sum.splits)
qed

lemma m_audio_processRequest [simp]: "m_audio (processRequest ct r env) = m_audio env"
  by (cases "uncaught (processRequest_try ct r env)")
    (simp_all add: processRequest_def catch_exception_def)

lemma m_audio_processRequests [simp]: "m_audio (processRequests ct rs env) = m_audio env"
  by (induction rs arbitrary: env) simp_all

lemma m_audio_processScheduler [simp]: "m_audio (processScheduler ct nt env) = m_audio env"
proof (induction ct nt env rule: processScheduler.induct)
  case (1 ct nt env)
  show ?case
  proof (cases "top_item (m_scheduler env)")
    case None
    then show ?thesis by (subst processScheduler.simps) simp
  next
    case (Some item)
    let ?env1 = "processPacket_B (m_request item) (m_time item) ct env"
    let ?env2 = "?env1\<lparr>m_scheduler := pop (m_scheduler ?env1)\<rparr>"
    show ?thesis
    proof (cases "\<not> isEmpty (m_scheduler env) \<and> time_le (m_time item) nt \<and> uncaught ?env1 = None")
      case True
      then have u: "\<not> uncaught ?env1 \<noteq> None" by simp
      from True have "processScheduler ct nt env = processScheduler ct nt ?env2"
        by (subst processScheduler.simps) (simp add: Some Let_def)
      moreover from True have "m_audio (processScheduler ct nt ?env2) = m_audio ?env2"
        by (intro "1.IH" [OF _ Some _ refl u]) simp_all
      ultimately show ?thesis by simp
    next
      case False
      then show ?thesis by (subst processScheduler.simps) (auto simp: Some Let_def)
    qed
  qed
qed

subsection \<open>One block\<close>






lemma m_epoch_connectBuses [simp]: "m_epoch (connectBuses audio inputs outputs) = m_epoch audio"
  by (simp add: connectBuses_def)



subsection \<open>The invariant of the epochs\<close>










lemma m_epoch_zeroOutputs [simp]: "m_epoch (zeroOutputs audio n) = m_epoch audio"
  by (simp add: zeroOutputs_def)










subsection \<open>The buses written in a block\<close>





subsection \<open>The epochs over a run of blocks\<close>




end
